theory Spec2Isabelle
  imports Complex_Main "HOL-Library.AList" "HOL-Library.Word"
begin

section \<open>Strings\<close>

text \<open>
  Usernames, node identifiers and the base64 fields of an envelope are values of
  \<^typ>\<open>string\<close>: a list of characters, each read as one UTF-16 code unit in the range
  0 to 255 (Basic Latin and Latin-1 Supplement). On that range \<open>String.prototype.trim\<close>
  removes the ECMAScript white space and line terminators (TAB, LF, VT, FF, CR, SP, NBSP)
  from both ends, and \<open>String.prototype.toLowerCase\<close> maps \<open>A\<close> to \<open>Z\<close> and the
  capital letters U+00C0 to U+00DE (without the multiplication sign U+00D7) to the
  letter 32 code units above; every other code unit of the range is its own lower case.
\<close>

definition isWhiteSpace :: "char \<Rightarrow> bool" where
  "isWhiteSpace c = (of_char c \<in> {9, 10, 11, 12, 13, 32, 160 :: nat})"

definition trim :: "string \<Rightarrow> string" where
  "trim s = rev (dropWhile isWhiteSpace (rev (dropWhile isWhiteSpace s)))"

definition lowerChar :: "char \<Rightarrow> char" where
  "lowerChar c =
     (let n = (of_char c :: nat)
      in if (65 \<le> n \<and> n \<le> 90) \<or> (192 \<le> n \<and> n \<le> 222 \<and> n \<noteq> 215)
         then char_of (n + 32) else c)"

definition toLowerCase :: "string \<Rightarrow> string" where
  "toLowerCase s = map lowerChar s"

text \<open>
  \<open>s.replace(pat, '')\<close> with a string pattern removes the first occurrence of the
  pattern and nothing else.
\<close>

fun removeFirst :: "string \<Rightarrow> string \<Rightarrow> string" where
  "removeFirst pat [] = []"
| "removeFirst pat (c # cs) =
     (if pat \<noteq> [] \<and> take (length pat) (c # cs) = pat then drop (length pat) (c # cs)
      else c # removeFirst pat cs)"

section \<open>Data model (types.ts)\<close>

record User =
  uid :: string
  username :: string
  publicKey :: string

record EncryptedMessage =
  msg_id :: string
  senderId :: string
  recipientId :: string
  isGroup :: bool
  encryptedContent :: string
  encryptedSessionKey :: string
  iv :: string
  hmac :: string
  timestamp :: nat

datatype ProtocolMessage =
    CHAT EncryptedMessage
  | IDENTITY_EXCHANGE string string  \<comment> \<open>publicKey, username\<close>

section \<open>The transport objects the socket service holds\<close>

text \<open>
  The service keeps references to objects of the peer-to-peer library: one \<open>Peer\<close> and
  any number of data connections. The same connection object can sit under two keys of
  the registry, so the objects live in stores and the service holds handles (indices).
  A connection object carries what the service reads (\<open>conn.peer\<close>, \<open>conn.open\<close>) and
  what the service registered on it: the handlers of \<open>setupConnection\<close> (\<open>wired\<close>) and
  the \<open>on('open')\<close> closures of \<open>send\<close>, each holding one payload. Whether a call into
  the library throws is the library's business: \<open>send_throws\<close> and \<open>connect_throws\<close>
  are set by the environment.
\<close>

datatype ready_cb = AppReady nat | NoopReady

record peer_obj =
  peer_id :: string
  destroyed :: bool
  disconnected :: bool
  onReady :: ready_cb
  connect_throws :: bool

record conn_obj =
  conn_peer :: string
  conn_open :: bool
  wired :: bool
  open_payloads :: "ProtocolMessage list"
  send_throws :: bool

text \<open>What the service does to the outside, in the order it does it.\<close>

datatype effect =
    NewPeer nat string
  | PeerReconnect nat
  | PeerDestroy nat
  | PeerConnect nat string nat
  | ConnSend nat ProtocolMessage
  | ConnClose nat
  | ErrorTo nat string string
  | MessageTo nat ProtocolMessage
  | ReadyCalled ready_cb string
  | SetTimeout nat rat
  | ClearTimeout nat
  | ReconnectAttempt rat

section \<open>SocketService (socketService.ts)\<close>

text \<open>
  The fields of the class, followed by the environment it runs in: the two object
  stores, the pending timeouts of the event loop (handle and delay), the next timeout
  handle (\<open>setTimeout\<close> returns a positive integer) and the log of effects.
  \<open>reconnectDelay\<close> is a JavaScript number; every value it takes is \<open>1000 * 3^n / 2^n\<close>
  below 30000 or 30000 itself, all exactly representable, so a rational models it
  without rounding.
\<close>

record SocketService =
  peer :: "nat option"
  connections :: "(string \<times> nat) list"
  handlers :: "nat list"
  errorHandlers :: "nat list"
  myId :: string
  myUser :: "User option"
  isOnline :: bool
  reconnectDelay :: rat
  reconnectTimeout :: "nat option"
  isDestroyed :: bool
  peers :: "peer_obj list"
  conns :: "conn_obj list"
  timers :: "(nat \<times> rat) list"
  next_timer :: nat
  effects :: "effect list"

definition maxReconnectDelay :: rat where
  "maxReconnectDelay = 30000"

definition initial :: SocketService where
  "initial = \<lparr> peer = None, connections = [], handlers = [], errorHandlers = [],
     myId = [], myUser = None, isOnline = False, reconnectDelay = 1000,
     reconnectTimeout = None, isDestroyed = False,
     peers = [], conns = [], timers = [], next_timer = 1, effects = [] \<rparr>"

definition emit :: "effect list \<Rightarrow> SocketService \<Rightarrow> SocketService" where
  "emit es w = w\<lparr>effects := effects w @ es\<rparr>"

text \<open>\<open>this.errorHandlers.forEach(h => h(errorType, message))\<close>\<close>

definition report :: "string \<Rightarrow> string \<Rightarrow> SocketService \<Rightarrow> SocketService" where
  "report ty msg w = emit (map (\<lambda>h. ErrorTo h ty msg) (errorHandlers w)) w"

text \<open>\<open>this.handlers.forEach(h => h(data))\<close>\<close>

definition deliver :: "ProtocolMessage \<Rightarrow> SocketService \<Rightarrow> SocketService" where
  "deliver d w = emit (map (\<lambda>h. MessageTo h d) (handlers w)) w"

definition nodeId :: "string \<Rightarrow> string" where
  "nodeId name = ''ST-'' @ toLowerCase (trim name)"

text \<open>\<open>this.peer && !this.peer.destroyed\<close>\<close>

definition peer_live :: "SocketService \<Rightarrow> bool" where
  "peer_live w =
     (case peer w of None \<Rightarrow> False
      | Some p \<Rightarrow> p < length (peers w) \<and> \<not> destroyed (peers w ! p))"

definition createPeer :: "ready_cb \<Rightarrow> SocketService \<Rightarrow> SocketService" where
  "createPeer cb w =
     (let p = length (peers w)
      in emit [NewPeer p (myId w)]
           (w\<lparr>peers := peers w @
                 [\<lparr>peer_id = myId w, destroyed = False, disconnected = False,
                   onReady = cb, connect_throws = False\<rparr>],
               peer := Some p\<rparr>))"

definition init :: "User \<Rightarrow> ready_cb \<Rightarrow> SocketService \<Rightarrow> SocketService" where
  "init user cb w =
     (if peer_live w then w
      else createPeer cb
             (w\<lparr>isDestroyed := False, myUser := Some user,
                 myId := nodeId (username user)\<rparr>))"

text \<open>\<open>if (this.reconnectTimeout)\<close>: \<open>null\<close> and 0 are falsy.\<close>

definition truthy :: "nat option \<Rightarrow> bool" where
  "truthy h = (case h of None \<Rightarrow> False | Some t \<Rightarrow> t \<noteq> 0)"

definition handleReconnect :: "SocketService \<Rightarrow> SocketService" where
  "handleReconnect w =
     (if truthy (reconnectTimeout w) then w
      else let t = next_timer w
           in emit [SetTimeout t (reconnectDelay w)]
                (w\<lparr>reconnectTimeout := Some t,
                    timers := timers w @ [(t, reconnectDelay w)],
                    next_timer := Suc t\<rparr>))"

text \<open>
  The body of the timeout callback of \<open>handleReconnect\<close>. \<open>peer.reconnect()\<close> clears
  the library's \<open>disconnected\<close> flag and starts the reconnection.
\<close>

definition peer_resumable :: "SocketService \<Rightarrow> bool" where
  "peer_resumable w =
     (case peer w of None \<Rightarrow> False
      | Some p \<Rightarrow> p < length (peers w) \<and> disconnected (peers w ! p)
                  \<and> \<not> destroyed (peers w ! p))"

definition peer_reconnect :: "SocketService \<Rightarrow> SocketService" where
  "peer_reconnect w =
     (case peer w of None \<Rightarrow> w
      | Some p \<Rightarrow> emit [PeerReconnect p]
                   (w\<lparr>peers := (peers w)[p := (peers w ! p)\<lparr>disconnected := False\<rparr>]\<rparr>))"

definition reconnect_attempt :: "SocketService \<Rightarrow> SocketService" where
  "reconnect_attempt w =
     (let w0 = emit [ReconnectAttempt (reconnectDelay w)] w;
          w1 = (if peer_resumable w0 then peer_reconnect w0
                else if \<not> peer_live w0
                then (case myUser w0 of Some u \<Rightarrow> init u NoopReady w0 | None \<Rightarrow> w0)
                else w0)
      in w1\<lparr>reconnectTimeout := None,
            reconnectDelay := min (reconnectDelay w1 * (3 / 2)) maxReconnectDelay\<rparr>)"

text \<open>\<open>setupConnection(conn)\<close>: returns early when the registry already holds an open
  connection under \<open>conn.peer\<close>; otherwise registers the open, data, close and error
  handlers on the connection.\<close>

definition setupConnection :: "nat \<Rightarrow> SocketService \<Rightarrow> SocketService" where
  "setupConnection c w =
     (case map_of (connections w) (conn_peer (conns w ! c)) of
        Some e \<Rightarrow> if conn_open (conns w ! e) then w
                  else w\<lparr>conns := (conns w)[c := (conns w ! c)\<lparr>wired := True\<rparr>]\<rparr>
      | None \<Rightarrow> w\<lparr>conns := (conns w)[c := (conns w ! c)\<lparr>wired := True\<rparr>]\<rparr>)"

text \<open>A connection object as the library creates it for \<open>peer.connect(id)\<close> or for an
  incoming connection: not yet open, nothing registered.\<close>

definition new_conn :: "string \<Rightarrow> conn_obj" where
  "new_conn remote = \<lparr>conn_peer = remote, conn_open = False, wired = False,
                       open_payloads = [], send_throws = False\<rparr>"

text \<open>
  The handlers of a connection. The library sets \<open>conn.open\<close> before it emits
  \<open>open\<close> and clears it before it emits \<open>close\<close>. An exception thrown by a listener
  leaves \<open>emit\<close>, so the listeners after it do not run.
\<close>

fun send_payloads :: "nat \<Rightarrow> ProtocolMessage list \<Rightarrow> SocketService \<Rightarrow> SocketService" where
  "send_payloads c [] w = w"
| "send_payloads c (d # ds) w =
     (if send_throws (conns w ! c) then w
      else send_payloads c ds (emit [ConnSend c d] w))"

definition on_conn_open :: "nat \<Rightarrow> SocketService \<Rightarrow> SocketService" where
  "on_conn_open c w0 =
     (let w = w0\<lparr>conns := (conns w0)[c := (conns w0 ! c)\<lparr>conn_open := True\<rparr>]\<rparr>;
          co = conns w ! c
      in if wired co then
           (case myUser w of
              Some u \<Rightarrow>
                if send_throws co then w
                else send_payloads c (open_payloads co)
                       ((emit [ConnSend c (IDENTITY_EXCHANGE (publicKey u) (username u))] w)
                          \<lparr>connections := AList.update (conn_peer co) c (connections w)\<rparr>)
            | None \<Rightarrow>
                send_payloads c (open_payloads co)
                  (w\<lparr>connections := AList.update (conn_peer co) c (connections w)\<rparr>))
         else send_payloads c (open_payloads co) w)"

definition on_conn_data :: "nat \<Rightarrow> ProtocolMessage \<Rightarrow> SocketService \<Rightarrow> SocketService" where
  "on_conn_data c d w =
     (if wired (conns w ! c) then
        deliver d
          (case d of
             IDENTITY_EXCHANGE pk name \<Rightarrow>
               w\<lparr>connections := AList.update (''ST-'' @ toLowerCase name) c (connections w)\<rparr>
           | CHAT m \<Rightarrow> w)
      else w)"

definition cleanup :: "nat \<Rightarrow> SocketService \<Rightarrow> SocketService" where
  "cleanup c w = w\<lparr>connections := AList.delete (conn_peer (conns w ! c)) (connections w)\<rparr>"

definition on_conn_close :: "nat \<Rightarrow> SocketService \<Rightarrow> SocketService" where
  "on_conn_close c w0 =
     (let w = w0\<lparr>conns := (conns w0)[c := (conns w0 ! c)\<lparr>conn_open := False\<rparr>]\<rparr>
      in if wired (conns w ! c) then cleanup c w else w)"

definition on_conn_error :: "nat \<Rightarrow> SocketService \<Rightarrow> SocketService" where
  "on_conn_error c w = (if wired (conns w ! c) then cleanup c w else w)"

text \<open>The handlers \<open>createPeer\<close> registers on the peer.\<close>

definition on_peer_open :: "nat \<Rightarrow> string \<Rightarrow> SocketService \<Rightarrow> SocketService" where
  "on_peer_open p ident w =
     emit [ReadyCalled (onReady (peers w ! p)) ident]
       (w\<lparr>isOnline := True, reconnectDelay := 1000\<rparr>)"

definition on_peer_connection :: "string \<Rightarrow> SocketService \<Rightarrow> SocketService" where
  "on_peer_connection remote w =
     setupConnection (length (conns w)) (w\<lparr>conns := conns w @ [new_conn remote]\<rparr>)"

definition on_peer_error :: "string \<Rightarrow> string \<Rightarrow> SocketService \<Rightarrow> SocketService" where
  "on_peer_error ty message w =
     (if ty = ''peer-unavailable'' then
        report ty (''Node '' @ removeFirst ''ST-'' message
                     @ '' is currently offline or unreachable.'')
          (w\<lparr>connections := AList.delete message (connections w)\<rparr>)
      else if ty = ''webrtc'' then
        report ty (''P2P Handshake failed. This is likely due to a restrictive firewall ''
                     @ ''or symmetric NAT. Try a different network.'') w
      else if ty = ''network'' then
        report ty ''Peer server connection lost. Retrying...'' (handleReconnect w)
      else if ty = ''unavailable-id'' then
        report ty ''This Node ID is already active on the mesh. Is another session open?'' w
      else report ty (''Protocol Error: '' @ ty @ '' - '' @ message) w)"

definition on_peer_disconnected :: "nat \<Rightarrow> SocketService \<Rightarrow> SocketService" where
  "on_peer_disconnected p w =
     handleReconnect
       (w\<lparr>peers := (peers w)[p := (peers w ! p)\<lparr>disconnected := True\<rparr>],
          isOnline := False\<rparr>)"

definition on_peer_close :: "nat \<Rightarrow> SocketService \<Rightarrow> SocketService" where
  "on_peer_close p w0 =
     (let w = w0\<lparr>peers := (peers w0)[p := (peers w0 ! p)\<lparr>destroyed := True\<rparr>],
                 isOnline := False\<rparr>
      in if \<not> isDestroyed w then handleReconnect w else w)"

text \<open>
  \<open>this.peer.connect(id, options)\<close> inside a \<open>try\<close>: \<open>None\<close> when the call throws
  (also when \<open>this.peer\<close> is \<open>null\<close>), otherwise the new connection object.
\<close>

definition peer_connect :: "string \<Rightarrow> SocketService \<Rightarrow> (nat \<times> SocketService) option" where
  "peer_connect target w =
     (case peer w of None \<Rightarrow> None
      | Some p \<Rightarrow>
          if p < length (peers w) \<and> \<not> connect_throws (peers w ! p)
          then let c = length (conns w)
               in Some (c, emit [PeerConnect p target c]
                             (w\<lparr>conns := conns w @ [new_conn target]\<rparr>))
          else None)"

text \<open>\<open>existing && existing.open\<close> for \<open>existing = this.connections.get(key)\<close>\<close>

definition open_conn :: "string \<Rightarrow> SocketService \<Rightarrow> nat option" where
  "open_conn key w =
     (case map_of (connections w) key of None \<Rightarrow> None
      | Some c \<Rightarrow> if conn_open (conns w ! c) then Some c else None)"

definition connectToPeer :: "string \<Rightarrow> SocketService \<Rightarrow> SocketService" where
  "connectToPeer targetUsername w =
     (let peerId = nodeId targetUsername
      in if peerId = myId w then w
         else if open_conn peerId w \<noteq> None then w
         else if \<not> peer_live w \<or> \<not> isOnline w
         then report ''offline'' ''Cannot connect: Node is currently offline from mesh.'' w
         else (case peer_connect peerId w of
                 Some (c, w') \<Rightarrow> setupConnection c w'
               | None \<Rightarrow> report ''connect-fail'' ''Initialization of P2P channel failed.'' w))"

text \<open>
  \<open>send(message)\<close>. \<open>send_fresh\<close> is the branch taken when the registry has no open
  connection for the recipient: one outbound connect, whose \<open>open\<close> event will carry
  the payload. The other branch sends on the open connection and, when that throws,
  evicts the connection, reports and calls \<open>send\<close> again.
\<close>

definition add_open_payload :: "nat \<Rightarrow> ProtocolMessage \<Rightarrow> SocketService \<Rightarrow> SocketService" where
  "add_open_payload c d w =
     w\<lparr>conns := (conns w)[c := (conns w ! c)\<lparr>open_payloads := open_payloads (conns w ! c) @ [d]\<rparr>]\<rparr>"

definition send_fresh :: "EncryptedMessage \<Rightarrow> SocketService \<Rightarrow> SocketService" where
  "send_fresh m w =
     (case peer_connect (nodeId (recipientId m)) w of
        Some (c, w') \<Rightarrow> add_open_payload c (CHAT m) (setupConnection c w')
      | None \<Rightarrow> report ''send-fail'' (''Could not reach node '' @ recipientId m) w)"

definition evict :: "string \<Rightarrow> SocketService \<Rightarrow> SocketService" where
  "evict key w = w\<lparr>connections := AList.delete key (connections w)\<rparr>"

function send :: "EncryptedMessage \<Rightarrow> SocketService \<Rightarrow> SocketService" where
  "send m w =
     (if \<not> isOnline w then report ''transport'' ''Signal dropped: Node is offline.'' w
      else case open_conn (nodeId (recipientId m)) w of
             None \<Rightarrow> send_fresh m w
           | Some c \<Rightarrow>
               if send_throws (conns w ! c)
               then send m (report ''send-fail'' ''Transmission failed. Retrying...''
                              (evict (nodeId (recipientId m)) w))
               else emit [ConnSend c (CHAT m)] w)"
  by pat_completeness auto
termination
proof (relation "measure (\<lambda>(m, w). if open_conn (nodeId (recipientId m)) w = None then 0 else 1)")
  show "wf (measure (\<lambda>(m, w). if open_conn (nodeId (recipientId m)) w = None then 0 else 1))"
    by simp
next
  fix m :: EncryptedMessage and w :: SocketService and c :: nat
  assume "open_conn (nodeId (recipientId m)) w = Some c"
  moreover have "open_conn (nodeId (recipientId m))
           (report ''send-fail'' ''Transmission failed. Retrying...''
              (evict (nodeId (recipientId m)) w)) = None"
    by (simp add: open_conn_def report_def emit_def evict_def delete_conv)
  ultimately show "((m, report ''send-fail'' ''Transmission failed. Retrying...''
                         (evict (nodeId (recipientId m)) w)), (m, w))
        \<in> measure (\<lambda>(m, w). if open_conn (nodeId (recipientId m)) w = None then 0 else 1)"
    by simp
qed

declare send.simps [simp del]

text \<open>\<open>destroy()\<close>. \<open>conn.close()\<close> clears \<open>conn.open\<close>, \<open>peer.destroy()\<close> sets the
  peer's \<open>destroyed\<close> and \<open>disconnected\<close> flags; \<open>reconnectTimeout\<close> keeps its value.\<close>

fun close_all :: "nat list \<Rightarrow> SocketService \<Rightarrow> SocketService" where
  "close_all [] w = w"
| "close_all (c # cs) w =
     close_all cs
       (emit [ConnClose c] (w\<lparr>conns := (conns w)[c := (conns w ! c)\<lparr>conn_open := False\<rparr>]\<rparr>))"

definition clear_reconnect_timeout :: "SocketService \<Rightarrow> SocketService" where
  "clear_reconnect_timeout w =
     (case reconnectTimeout w of
        Some t \<Rightarrow> if t \<noteq> 0
                  then emit [ClearTimeout t] (w\<lparr>timers := filter (\<lambda>(i, d). i \<noteq> t) (timers w)\<rparr>)
                  else w
      | None \<Rightarrow> w)"

definition peer_destroy :: "SocketService \<Rightarrow> SocketService" where
  "peer_destroy w =
     (case peer w of None \<Rightarrow> w
      | Some p \<Rightarrow> emit [PeerDestroy p]
                   (w\<lparr>peers := (peers w)[p := (peers w ! p)\<lparr>destroyed := True,
                                                              disconnected := True\<rparr>]\<rparr>))"

definition destroy :: "SocketService \<Rightarrow> SocketService" where
  "destroy w =
     (let w1 = clear_reconnect_timeout (w\<lparr>isDestroyed := True\<rparr>);
          w2 = (close_all (map snd (connections w1)) w1)\<lparr>connections := []\<rparr>
      in (peer_destroy w2)\<lparr>isOnline := False\<rparr>)"

definition onMessage :: "nat \<Rightarrow> SocketService \<Rightarrow> SocketService" where
  "onMessage h w = (if h \<in> set (handlers w) then w else w\<lparr>handlers := handlers w @ [h]\<rparr>)"

definition offMessage :: "nat \<Rightarrow> SocketService \<Rightarrow> SocketService" where
  "offMessage h w = w\<lparr>handlers := removeAll h (handlers w)\<rparr>"

definition onError :: "nat \<Rightarrow> SocketService \<Rightarrow> SocketService" where
  "onError h w =
     (if h \<in> set (errorHandlers w) then w else w\<lparr>errorHandlers := errorHandlers w @ [h]\<rparr>)"

definition offError :: "nat \<Rightarrow> SocketService \<Rightarrow> SocketService" where
  "offError h w = w\<lparr>errorHandlers := removeAll h (errorHandlers w)\<rparr>"

definition getActiveConnections :: "SocketService \<Rightarrow> string list" where
  "getActiveConnections w =
     map fst (filter (\<lambda>(k, c). conn_open (conns w ! c)) (connections w))"

section \<open>Events\<close>

text \<open>
  Everything happens in one serialized queue of events: calls of the public methods,
  events of the peer and of its connections, a timeout firing, and the library changing
  whether its calls throw. An event of an object that does not exist, or of a timeout
  that is not pending, is no event.
\<close>

datatype event =
    Init User ready_cb
  | ConnectToPeer string
  | Send EncryptedMessage
  | Destroy
  | OnMessage nat
  | OffMessage nat
  | OnError nat
  | OffError nat
  | PeerOpen nat string
  | PeerConnection nat string
  | PeerError nat string string
  | PeerDisconnected nat
  | PeerClose nat
  | ConnOpen nat
  | ConnData nat ProtocolMessage
  | ConnClosed nat
  | ConnError nat
  | TimerFired nat
  | ConnFault nat bool
  | PeerFault nat bool

fun step :: "SocketService \<Rightarrow> event \<Rightarrow> SocketService" where
  "step w (Init u cb) = init u cb w"
| "step w (ConnectToPeer name) = connectToPeer name w"
| "step w (Send m) = send m w"
| "step w Destroy = destroy w"
| "step w (OnMessage h) = onMessage h w"
| "step w (OffMessage h) = offMessage h w"
| "step w (OnError h) = onError h w"
| "step w (OffError h) = offError h w"
| "step w (PeerOpen p ident) = (if p < length (peers w) then on_peer_open p ident w else w)"
| "step w (PeerConnection p remote) =
     (if p < length (peers w) then on_peer_connection remote w else w)"
| "step w (PeerError p ty message) =
     (if p < length (peers w) then on_peer_error ty message w else w)"
| "step w (PeerDisconnected p) = (if p < length (peers w) then on_peer_disconnected p w else w)"
| "step w (PeerClose p) = (if p < length (peers w) then on_peer_close p w else w)"
| "step w (ConnOpen c) = (if c < length (conns w) then on_conn_open c w else w)"
| "step w (ConnData c d) = (if c < length (conns w) then on_conn_data c d w else w)"
| "step w (ConnClosed c) = (if c < length (conns w) then on_conn_close c w else w)"
| "step w (ConnError c) = (if c < length (conns w) then on_conn_error c w else w)"
| "step w (TimerFired t) =
     (if t \<in> fst ` set (timers w)
      then reconnect_attempt (w\<lparr>timers := filter (\<lambda>(i, d). i \<noteq> t) (timers w)\<rparr>)
      else w)"
| "step w (ConnFault c b) =
     (if c < length (conns w)
      then w\<lparr>conns := (conns w)[c := (conns w ! c)\<lparr>send_throws := b\<rparr>]\<rparr> else w)"
| "step w (PeerFault p b) =
     (if p < length (peers w)
      then w\<lparr>peers := (peers w)[p := (peers w ! p)\<lparr>connect_throws := b\<rparr>]\<rparr> else w)"

definition run :: "SocketService \<Rightarrow> event list \<Rightarrow> SocketService" where
  "run w evs = foldl step w evs"

section \<open>Bytes, base64 and text encoding\<close>

text \<open>
  An \<open>ArrayBuffer\<close> or \<open>Uint8Array\<close> is a list of bytes. A message text, a password
  or a salt is a JavaScript string: a list of 16-bit code units (any list, also one
  with unpaired surrogates).
\<close>

type_synonym bytes = "8 word list"

type_synonym jsstring = "16 word list"

subsection \<open>\<open>btoa\<close> and \<open>atob\<close>\<close>

text \<open>
  \<open>btoa\<close> encodes a binary string (one character per byte) in base64 with padding.
  \<open>atob\<close> is the forgiving base64 decoder of the platform: it removes ASCII white
  space, removes one or two trailing \<open>=\<close> when the length is a multiple of four, fails
  when the length is then 1 modulo 4 or a character is outside the alphabet, and drops
  the unused low bits of the last character without looking at them.
\<close>

definition b64_char :: "nat \<Rightarrow> char" where
  "b64_char v =
     (if v < 26 then char_of (v + 65)
      else if v < 52 then char_of (v + 71)
      else if v < 62 then char_of (v - 4)
      else if v = 62 then CHR ''+'' else CHR ''/'')"

definition b64_value :: "char \<Rightarrow> nat option" where
  "b64_value c =
     (let n = (of_char c :: nat)
      in if 65 \<le> n \<and> n \<le> 90 then Some (n - 65)
         else if 97 \<le> n \<and> n \<le> 122 then Some (n - 71)
         else if 48 \<le> n \<and> n \<le> 57 then Some (n + 4)
         else if n = 43 then Some 62
         else if n = 47 then Some 63
         else None)"

fun b64_sextets :: "nat list \<Rightarrow> nat list" where
  "b64_sextets (a # b # c # rest) =
     [a div 4, (a mod 4) * 16 + b div 16, (b mod 16) * 4 + c div 64, c mod 64]
     @ b64_sextets rest"
| "b64_sextets [a, b] = [a div 4, (a mod 4) * 16 + b div 16, (b mod 16) * 4]"
| "b64_sextets [a] = [a div 4, (a mod 4) * 16]"
| "b64_sextets [] = []"

definition btoa :: "string \<Rightarrow> string" where
  "btoa s = map b64_char (b64_sextets (map of_char s))
            @ replicate ((3 - length s mod 3) mod 3) (CHR ''='')"

definition isAsciiWhitespace :: "char \<Rightarrow> bool" where
  "isAsciiWhitespace c = (of_char c \<in> {9, 10, 12, 13, 32 :: nat})"

definition strip_padding :: "string \<Rightarrow> string" where
  "strip_padding d =
     (if length d mod 4 = 0 then
        (if 2 \<le> length d \<and> drop (length d - 2) d = ''=='' then take (length d - 2) d
         else if 1 \<le> length d \<and> drop (length d - 1) d = ''='' then take (length d - 1) d
         else d)
      else d)"

fun b64_octets :: "nat list \<Rightarrow> nat list" where
  "b64_octets (i # j # k # l # rest) =
     [i * 4 + j div 16, (j mod 16) * 16 + k div 4, (k mod 4) * 64 + l] @ b64_octets rest"
| "b64_octets [i, j, k] = [i * 4 + j div 16, (j mod 16) * 16 + k div 4]"
| "b64_octets [i, j] = [i * 4 + j div 16]"
| "b64_octets [i] = []"
| "b64_octets [] = []"

definition atob :: "string \<Rightarrow> string option" where
  "atob s =
     (let d = strip_padding (filter (\<lambda>c. \<not> isAsciiWhitespace c) s)
      in if length d mod 4 = 1 then None
         else case those (map b64_value d) of
                None \<Rightarrow> None
              | Some vs \<Rightarrow> Some (map char_of (b64_octets vs)))"

text \<open>\<open>base64ToBuffer\<close> of cryptoService.ts: \<open>atob\<close>, then \<open>charCodeAt\<close> of every
  character. \<open>None\<close> is the \<open>InvalidCharacterError\<close> of \<open>atob\<close>.\<close>

definition base64ToBuffer :: "string \<Rightarrow> bytes option" where
  "base64ToBuffer base64 =
     (case atob base64 of None \<Rightarrow> None
      | Some binaryString \<Rightarrow> Some (map (\<lambda>c. of_nat (of_char c)) binaryString))"

subsection \<open>\<open>TextEncoder\<close> and \<open>TextDecoder\<close>\<close>

text \<open>
  \<open>new TextEncoder().encode(s)\<close> reads the code units as scalar values (a surrogate
  pair is one code point, an unpaired surrogate becomes U+FFFD) and writes them in
  UTF-8. \<open>new TextDecoder().decode(bytes)\<close> is the UTF-8 decoder of the Encoding
  Standard without the \<open>fatal\<close> flag (an ill-formed sequence becomes U+FFFD, the byte
  that ended it is read again) and without \<open>ignoreBOM\<close> (a leading U+FEFF is dropped);
  the code points are written back as UTF-16 code units. \<open>utf8_decode\<close> carries the
  decoder's state: the code point so far, the bytes still needed, and the bounds of the
  next byte.
\<close>

definition isHigh :: "nat \<Rightarrow> bool" where
  "isHigh u = (0xD800 \<le> u \<and> u \<le> 0xDBFF)"

definition isLow :: "nat \<Rightarrow> bool" where
  "isLow u = (0xDC00 \<le> u \<and> u \<le> 0xDFFF)"

definition isSurrogate :: "nat \<Rightarrow> bool" where
  "isSurrogate u = (0xD800 \<le> u \<and> u \<le> 0xDFFF)"

fun scalar_values :: "nat list \<Rightarrow> nat list" where
  "scalar_values (c # d # rest) =
     (if isHigh c \<and> isLow d
      then (0x10000 + (c - 0xD800) * 1024 + (d - 0xDC00)) # scalar_values rest
      else (if isSurrogate c then 0xFFFD else c) # scalar_values (d # rest))"
| "scalar_values [c] = [if isSurrogate c then 0xFFFD else c]"
| "scalar_values [] = []"

definition utf8_bytes :: "nat \<Rightarrow> nat list" where
  "utf8_bytes cp =
     (if cp < 0x80 then [cp]
      else if cp < 0x800 then [0xC0 + cp div 64, 0x80 + cp mod 64]
      else if cp < 0x10000 then [0xE0 + cp div 4096, 0x80 + cp div 64 mod 64, 0x80 + cp mod 64]
      else [0xF0 + cp div 262144, 0x80 + cp div 4096 mod 64, 0x80 + cp div 64 mod 64,
            0x80 + cp mod 64])"

definition TextEncoder_encode :: "jsstring \<Rightarrow> bytes" where
  "TextEncoder_encode s = map of_nat (concat (map utf8_bytes (scalar_values (map unat s))))"

fun utf8_decode :: "nat \<Rightarrow> nat \<Rightarrow> nat \<Rightarrow> nat \<Rightarrow> nat list \<Rightarrow> nat list" where
  "utf8_decode cp needed lo hi [] = (if needed = 0 then [] else [0xFFFD])"
| "utf8_decode cp needed lo hi (b # bs) =
     (if needed = 0 then
        (if b \<le> 0x7F then b # utf8_decode 0 0 0x80 0xBF bs
         else if 0xC2 \<le> b \<and> b \<le> 0xDF then utf8_decode (b mod 32) 1 0x80 0xBF bs
         else if 0xE0 \<le> b \<and> b \<le> 0xEF
         then utf8_decode (b mod 16) 2 (if b = 0xE0 then 0xA0 else 0x80)
                (if b = 0xED then 0x9F else 0xBF) bs
         else if 0xF0 \<le> b \<and> b \<le> 0xF4
         then utf8_decode (b mod 8) 3 (if b = 0xF0 then 0x90 else 0x80)
                (if b = 0xF4 then 0x8F else 0xBF) bs
         else 0xFFFD # utf8_decode 0 0 0x80 0xBF bs)
      else if lo \<le> b \<and> b \<le> hi then
        (if needed = 1 then (cp * 64 + b mod 64) # utf8_decode 0 0 0x80 0xBF bs
         else utf8_decode (cp * 64 + b mod 64) (needed - 1) 0x80 0xBF bs)
      else 0xFFFD # utf8_decode 0 0 0x80 0xBF (b # bs))"

definition strip_bom :: "nat list \<Rightarrow> nat list" where
  "strip_bom cps = (case cps of [] \<Rightarrow> [] | c # rest \<Rightarrow> if c = 0xFEFF then rest else cps)"

definition utf16_units :: "nat \<Rightarrow> nat list" where
  "utf16_units cp =
     (if cp < 0x10000 then [cp]
      else [0xD800 + (cp - 0x10000) div 1024, 0xDC00 + (cp - 0x10000) mod 1024])"

definition TextDecoder_decode :: "bytes \<Rightarrow> jsstring" where
  "TextDecoder_decode bs =
     map of_nat (concat (map utf16_units (strip_bom (utf8_decode 0 0 0x80 0xBF (map unat bs)))))"

fun wellFormed :: "nat list \<Rightarrow> bool" where
  "wellFormed (c # d # rest) =
     (if isHigh c \<and> isLow d then wellFormed rest
      else \<not> isSurrogate c \<and> wellFormed (d # rest))"
| "wellFormed [c] = (\<not> isSurrogate c)"
| "wellFormed [] = True"

definition isWellFormed :: "jsstring \<Rightarrow> bool" where
  "isWellFormed s = wellFormed (map unat s)"

definition is_scalar :: "nat \<Rightarrow> bool" where
  "is_scalar cp = (cp < 0x110000 \<and> \<not> isSurrogate cp)"

section \<open>cryptoService.ts\<close>

text \<open>
  The service is written against the platform: the primitives of Web Crypto, here a
  record of functions over abstract RSA key types, and the JavaScript engine.
  AES-GCM takes the raw key, the IV and the data; decryption returns \<open>None\<close> when the
  authentication tag does not verify. RSA-OAEP encryption takes its random seed
  explicitly and returns \<open>None\<close> when the data is too long for the modulus.
  PBKDF2 with HMAC-SHA-256 reads the password as the key of every HMAC it computes,
  and HMAC first brings its key to the block length of the hash, 64 bytes (\<open>hmac_key\<close>
  below); \<open>pbkdf2_hmac block salt iterations\<close> is the 256-bit output for the key
  block, and \<open>sha256\<close> the hash. \<open>max_arguments\<close> is the largest number of arguments
  the engine accepts in one call (65536 in JavaScriptCore; in V8 it follows from the
  stack size and is in the order of 120000).
  A symmetric \<open>CryptoKey\<close> is its raw key; extractability and key usages are not
  modelled (every key in the developments below comes from the function that gives it
  the usages its users need).
\<close>

record ('pub, 'priv) platform =
  aes_gcm_encrypt :: "bytes \<Rightarrow> bytes \<Rightarrow> bytes \<Rightarrow> bytes"
  aes_gcm_decrypt :: "bytes \<Rightarrow> bytes \<Rightarrow> bytes \<Rightarrow> bytes option"
  rsa_oaep_encrypt :: "'pub \<Rightarrow> bytes \<Rightarrow> bytes \<Rightarrow> bytes option"
  rsa_oaep_decrypt :: "'priv \<Rightarrow> bytes \<Rightarrow> bytes option"
  rsa_generate :: "(nat \<Rightarrow> 8 word) \<Rightarrow> ('pub \<times> 'priv) \<times> (nat \<Rightarrow> 8 word)"
  export_spki :: "'pub \<Rightarrow> bytes"
  import_spki :: "bytes \<Rightarrow> 'pub option"
  export_pkcs8 :: "'priv \<Rightarrow> bytes"
  import_pkcs8 :: "bytes \<Rightarrow> 'priv option"
  sha256 :: "bytes \<Rightarrow> bytes"
  pbkdf2_hmac :: "bytes \<Rightarrow> bytes \<Rightarrow> nat \<Rightarrow> bytes"
  max_arguments :: nat

text \<open>
  Every exported function is asynchronous and may draw from the platform's random
  source: it takes the source (an endless tape of bytes) and returns it as it left it,
  with either the exception that rejected the promise or the value that resolved it.
\<close>

type_synonym rng = "nat \<Rightarrow> 8 word"

datatype js_error = RangeError | InvalidCharacterError | OperationError | DataError

definition getRandomValues :: "nat \<Rightarrow> rng \<Rightarrow> bytes \<times> rng" where
  "getRandomValues n r = (map r [0..<n], \<lambda>i. r (i + n))"

text \<open>
  \<open>bufferToBase64\<close>: \<open>String.fromCharCode(...bytes)\<close> passes every byte of the buffer
  as one argument of the call, which throws a \<open>RangeError\<close> when the engine does not
  accept that many; \<open>btoa\<close> then encodes the binary string.
\<close>

definition fromCharCode :: "('pub, 'priv) platform \<Rightarrow> bytes \<Rightarrow> js_error + string" where
  "fromCharCode W codes =
     (if length codes \<le> max_arguments W then Inr (map (\<lambda>b. char_of (unat b)) codes)
      else Inl RangeError)"

definition bufferToBase64 :: "('pub, 'priv) platform \<Rightarrow> bytes \<Rightarrow> js_error + string" where
  "bufferToBase64 W buffer =
     (case fromCharCode W buffer of Inl e \<Rightarrow> Inl e | Inr s \<Rightarrow> Inr (btoa s))"



record 'priv RSAKeyPair =
  kp_publicKey :: string
  kp_privateKey :: 'priv

definition generateRSAKeyPair ::
  "('pub, 'priv) platform \<Rightarrow> rng \<Rightarrow> (js_error + 'priv RSAKeyPair) \<times> rng" where
  "generateRSAKeyPair W r =
     (case rsa_generate W r of
        ((pub, priv), r') \<Rightarrow>
          (case bufferToBase64 W (export_spki W pub) of
             Inl e \<Rightarrow> (Inl e, r')
           | Inr exported \<Rightarrow> (Inr \<lparr>kp_publicKey = exported, kp_privateKey = priv\<rparr>, r')))"

record ProtectedKey =
  pk_data :: string
  pk_iv :: string

definition protectPrivateKey ::
  "('pub, 'priv) platform \<Rightarrow> 'priv \<Rightarrow> bytes \<Rightarrow> rng \<Rightarrow> (js_error + ProtectedKey) \<times> rng" where
  "protectPrivateKey W privateKey masterKey r =
     (let exported = export_pkcs8 W privateKey;
          (ivb, r') = getRandomValues 12 r;
          encrypted = aes_gcm_encrypt W masterKey ivb exported
      in case bufferToBase64 W encrypted of
           Inl e \<Rightarrow> (Inl e, r')
         | Inr d \<Rightarrow>
             (case bufferToBase64 W ivb of
                Inl e \<Rightarrow> (Inl e, r')
              | Inr v \<Rightarrow> (Inr \<lparr>pk_data = d, pk_iv = v\<rparr>, r')))"


definition generateAESKey :: "('pub, 'priv) platform \<Rightarrow> rng \<Rightarrow> (js_error + bytes) \<times> rng" where
  "generateAESKey W r = (case getRandomValues 32 r of (k, r') \<Rightarrow> (Inr k, r'))"

record AESResult =
  ciphertext :: string
  aes_iv :: string

definition encryptWithAES ::
  "('pub, 'priv) platform \<Rightarrow> jsstring \<Rightarrow> bytes \<Rightarrow> rng \<Rightarrow> (js_error + AESResult) \<times> rng" where
  "encryptWithAES W text key r =
     (let (ivb, r') = getRandomValues 12 r;
          encrypted = aes_gcm_encrypt W key ivb (TextEncoder_encode text)
      in case bufferToBase64 W encrypted of
           Inl e \<Rightarrow> (Inl e, r')
         | Inr c \<Rightarrow>
             (case bufferToBase64 W ivb of
                Inl e \<Rightarrow> (Inl e, r')
              | Inr v \<Rightarrow> (Inr \<lparr>ciphertext = c, aes_iv = v\<rparr>, r')))"

definition decryptWithAES ::
  "('pub, 'priv) platform \<Rightarrow> string \<Rightarrow> bytes \<Rightarrow> string \<Rightarrow> rng \<Rightarrow> (js_error + jsstring) \<times> rng" where
  "decryptWithAES W ct key ivs r =
     (case base64ToBuffer ivs of
        None \<Rightarrow> (Inl InvalidCharacterError, r)
      | Some ivb \<Rightarrow>
          (case base64ToBuffer ct of
             None \<Rightarrow> (Inl InvalidCharacterError, r)
           | Some buffer \<Rightarrow>
               (case aes_gcm_decrypt W key ivb buffer of
                  None \<Rightarrow> (Inl OperationError, r)
                | Some decrypted \<Rightarrow> (Inr (TextDecoder_decode decrypted), r))))"

text \<open>\<open>encryptKeyWithRSA\<close>: the public key is imported from its base64 SPKI form, the
  session key is exported raw and encrypted under it; RSA-OAEP draws a seed of the
  hash length (32 bytes).\<close>

definition encryptKeyWithRSA ::
  "('pub, 'priv) platform \<Rightarrow> bytes \<Rightarrow> string \<Rightarrow> rng \<Rightarrow> (js_error + string) \<times> rng" where
  "encryptKeyWithRSA W aesKey publicKeyStr r =
     (case base64ToBuffer publicKeyStr of
        None \<Rightarrow> (Inl InvalidCharacterError, r)
      | Some spki \<Rightarrow>
          (case import_spki W spki of
             None \<Rightarrow> (Inl DataError, r)
           | Some pub \<Rightarrow>
               (case getRandomValues 32 r of
                  (seed, r') \<Rightarrow>
                    (case rsa_oaep_encrypt W pub seed aesKey of
                       None \<Rightarrow> (Inl OperationError, r')
                     | Some encrypted \<Rightarrow>
                         (case bufferToBase64 W encrypted of
                            Inl e \<Rightarrow> (Inl e, r')
                          | Inr wrapped \<Rightarrow> (Inr wrapped, r'))))))"

text \<open>\<open>decryptKeyWithRSA\<close>: \<open>importKey("raw", ..., "AES-GCM")\<close> accepts keys of 128,
  192 and 256 bits only.\<close>

definition decryptKeyWithRSA ::
  "('pub, 'priv) platform \<Rightarrow> string \<Rightarrow> 'priv \<Rightarrow> rng \<Rightarrow> (js_error + bytes) \<times> rng" where
  "decryptKeyWithRSA W encryptedKeyStr privateKey r =
     (case base64ToBuffer encryptedKeyStr of
        None \<Rightarrow> (Inl InvalidCharacterError, r)
      | Some buffer \<Rightarrow>
          (case rsa_oaep_decrypt W privateKey buffer of
             None \<Rightarrow> (Inl OperationError, r)
           | Some decryptedRaw \<Rightarrow>
               if length decryptedRaw \<in> {16, 24, 32} then (Inr decryptedRaw, r)
               else (Inl DataError, r)))"

section \<open>App.tsx: sealing and opening an envelope\<close>

text \<open>
  \<open>sendMessage\<close> up to the call of \<open>socketService.send\<close>: a fresh session key, the
  text encrypted under it, the session key wrapped under the recipient's public key,
  and the envelope built from the three with the constant \<open>hmac\<close> field. The message
  id and the timestamp come from \<open>Math.random\<close> and \<open>Date.now\<close>. The guard before
  it (blank input, no recipient, no user) is not part of the definition.
\<close>

definition sealEnvelope ::
  "('pub, 'priv) platform \<Rightarrow> jsstring \<Rightarrow> User \<Rightarrow> User \<Rightarrow> string \<Rightarrow> nat \<Rightarrow> rng
     \<Rightarrow> (js_error + EncryptedMessage) \<times> rng" where
  "sealEnvelope W inputText sender activeRecipient ident now r =
     (case generateAESKey W r of
        (Inl e, r1) \<Rightarrow> (Inl e, r1)
      | (Inr sessionKey, r1) \<Rightarrow>
          (case encryptWithAES W inputText sessionKey r1 of
             (Inl e, r2) \<Rightarrow> (Inl e, r2)
           | (Inr sealed, r2) \<Rightarrow>
               (case encryptKeyWithRSA W sessionKey (publicKey activeRecipient) r2 of
                  (Inl e, r3) \<Rightarrow> (Inl e, r3)
                | (Inr wrapped, r3) \<Rightarrow>
                    (Inr \<lparr>msg_id = ident, senderId = username sender,
                          recipientId = username activeRecipient, isGroup = False,
                          encryptedContent = ciphertext sealed,
                          encryptedSessionKey = wrapped, iv = aes_iv sealed,
                          hmac = ''GCM-SECURE'', timestamp = now\<rparr>, r3))))"

text \<open>
  The \<open>CHAT\<close> branch of the message handler: unwrap the session key, decrypt the
  content; any exception ends in the \<open>catch\<close> that logs an integrity violation and
  shows nothing. The handler reads \<open>encryptedSessionKey\<close>, \<open>encryptedContent\<close> and
  \<open>iv\<close> of the envelope.
\<close>

definition openEnvelope ::
  "('pub, 'priv) platform \<Rightarrow> 'priv \<Rightarrow> EncryptedMessage \<Rightarrow> rng \<Rightarrow> (js_error + jsstring) \<times> rng" where
  "openEnvelope W privateKey m r =
     (case decryptKeyWithRSA W (encryptedSessionKey m) privateKey r of
        (Inl e, r1) \<Rightarrow> (Inl e, r1)
      | (Inr aesKey, r1) \<Rightarrow> decryptWithAES W (encryptedContent m) aesKey (iv m) r1)"

datatype chat_outcome = Decrypted jsstring | IntegrityViolation

definition onChat :: "('pub, 'priv) platform \<Rightarrow> 'priv \<Rightarrow> EncryptedMessage \<Rightarrow> rng \<Rightarrow> chat_outcome" where
  "onChat W privateKey m r =
     (case fst (openEnvelope W privateKey m r) of
        Inl e \<Rightarrow> IntegrityViolation
      | Inr decrypted \<Rightarrow> Decrypted decrypted)"

text \<open>
  The two compositions the properties speak of: opening what was just sealed, and
  recovering (under a master key \<open>m'\<close>) what was just protected (under \<open>m\<close>).
\<close>

definition sealThenOpen ::
  "('pub, 'priv) platform \<Rightarrow> jsstring \<Rightarrow> User \<Rightarrow> User \<Rightarrow> string \<Rightarrow> nat \<Rightarrow> 'priv \<Rightarrow> rng
     \<Rightarrow> (js_error + jsstring) \<times> rng" where
  "sealThenOpen W text sender activeRecipient ident now privateKey r =
     (case sealEnvelope W text sender activeRecipient ident now r of
        (Inl e, r') \<Rightarrow> (Inl e, r')
      | (Inr m, r') \<Rightarrow> openEnvelope W privateKey m r')"


section \<open>Observations on a run\<close>

text \<open>
  The number of reconnect attempts (runs of the timeout callback) since the transport
  last reported \<open>open\<close>, read off the log of effects: the callback logs its attempt
  first, and the \<open>open\<close> handler calls \<open>onReady\<close>.
\<close>

fun tally :: "nat \<Rightarrow> effect \<Rightarrow> nat" where
  "tally n (ReadyCalled cb ident) = 0"
| "tally n (ReconnectAttempt d) = Suc n"
| "tally n e = n"

definition attempts_since_open :: "effect list \<Rightarrow> nat" where
  "attempts_since_open es = foldl tally 0 es"

text \<open>The reconnect state: the delay, the stored timeout handle, and the timeouts that
  are pending in the event loop.\<close>

definition reconnect_state :: "SocketService \<Rightarrow> rat \<times> nat option \<times> (nat \<times> rat) list \<times> nat" where
  "reconnect_state w = (reconnectDelay w, reconnectTimeout w, timers w, next_timer w)"

text \<open>The closed form of the backoff: floor 1000 ms, factor 1.5, ceiling 30000 ms.\<close>

definition backoff_inv :: "SocketService \<Rightarrow> bool" where
  "backoff_inv w =
     (reconnectDelay w = min (1000 * (3 / 2) ^ attempts_since_open (effects w)) 30000)"

text \<open>
  At most one timeout is pending, and a pending timeout is the one whose handle the
  service stores.
\<close>

definition timers_ok :: "rat \<times> nat option \<times> (nat \<times> rat) list \<times> nat \<Rightarrow> bool" where
  "timers_ok rs =
     (case rs of (delay, handle, pending, next) \<Rightarrow>
        next \<noteq> 0 \<and>
        (case pending of
           [] \<Rightarrow> True
         | [td] \<Rightarrow> handle = Some (fst td) \<and> fst td \<noteq> 0
         | _ \<Rightarrow> False))"

definition timer_inv :: "SocketService \<Rightarrow> bool" where
  "timer_inv w = timers_ok (reconnect_state w)"

text \<open>
  Where an envelope can still be waiting: the payloads held by the \<open>open\<close> closures of
  the connection objects. \<open>held_only_by m c\<close> says that no connection but \<open>c\<close> holds the
  envelope \<open>m\<close>; \<open>sends_of m\<close> counts the transmissions of \<open>m\<close> in a log.
\<close>

definition payloads :: "SocketService \<Rightarrow> ProtocolMessage list list" where
  "payloads w = map open_payloads (conns w)"

definition held_only_by :: "EncryptedMessage \<Rightarrow> nat \<Rightarrow> ProtocolMessage list list \<Rightarrow> bool" where
  "held_only_by m c ps = (\<forall>i < length ps. CHAT m \<in> set (ps ! i) \<longrightarrow> i = c)"

fun is_send_of :: "EncryptedMessage \<Rightarrow> effect \<Rightarrow> bool" where
  "is_send_of m (ConnSend c d) = (d = CHAT m)"
| "is_send_of m e = False"

definition sends_of :: "EncryptedMessage \<Rightarrow> effect list \<Rightarrow> nat" where
  "sends_of m es = length (filter (is_send_of m) es)"

text \<open>How one event can change the payloads held: not at all, or by one new connection
  holding nothing, or by one new connection holding the envelope just sent.\<close>

definition grows :: "EncryptedMessage \<Rightarrow> ProtocolMessage list list \<Rightarrow> ProtocolMessage list list \<Rightarrow> bool" where
  "grows m ps ps' = (ps' = ps \<or> ps' = ps @ [[]] \<or> (\<exists>m'. m' \<noteq> m \<and> ps' = ps @ [[CHAT m']]))"

text \<open>The base64 text of a buffer: what \<open>bufferToBase64\<close> returns when it returns.\<close>

definition base64_text :: "bytes \<Rightarrow> string" where
  "base64_text buffer = btoa (map (\<lambda>b. char_of (unat b)) buffer)"

section \<open>Concrete scenarios\<close>

definition alice :: User where
  "alice = \<lparr>uid = ''u1'', username = ''Alice'', publicKey = ''pkA''\<rparr>"

definition bob :: User where
  "bob = \<lparr>uid = ''u2'', username = ''Bob'', publicKey = ''pkB''\<rparr>"

text \<open>Alice's node after \<open>init(alice, onReady0)\<close> and the transport's \<open>open\<close>.\<close>

definition alice_started :: SocketService where
  "alice_started = init alice (AppReady 0) initial"

definition alice_online :: SocketService where
  "alice_online = run initial [Init alice (AppReady 0), OnError 7, PeerOpen 0 ''ST-alice'']"

text \<open>Alice's node after the transport dropped: one reconnect timer is pending.\<close>

definition alice_dropped :: "event list" where
  "alice_dropped = [Init alice (AppReady 0), OnError 7, PeerOpen 0 ''ST-alice'',
                    PeerDisconnected 0]"

text \<open>
  The service is destroyed while that timer is pending (the destroyed peer emits
  \<open>close\<close>), and started again: \<open>init\<close> creates a second peer, which opens.
\<close>

definition alice_restarted :: "event list" where
  "alice_restarted = alice_dropped @ [Destroy, PeerClose 0, Init alice (AppReady 1),
                                      PeerOpen 1 ''ST-alice'']"

text \<open>
  Alice has an open connection to Bob; then the data channel starts to throw on
  \<open>send\<close>, and the peer's \<open>connect\<close> throws as well.
\<close>

definition hello :: EncryptedMessage where
  "hello = \<lparr>msg_id = ''m1'', senderId = ''Alice'', recipientId = ''Bob'', isGroup = False,
             encryptedContent = ''Y2lwaGVy'', encryptedSessionKey = ''a2V5'', iv = ''aXY='',
             hmac = ''GCM-SECURE'', timestamp = 0\<rparr>"

definition alice_connected :: "event list" where
  "alice_connected = [Init alice (AppReady 0), OnError 7, PeerOpen 0 ''ST-alice'',
                      ConnectToPeer ''Bob'', ConnOpen 0]"

definition alice_faulty :: SocketService where
  "alice_faulty = run initial (alice_connected @ [ConnFault 0 True, PeerFault 0 True])"

text \<open>
  An incoming connection whose transport id is \<open>ST-mallory\<close> opens and sends an
  identity-exchange record with the username \<open>Bob\<close>; then the transport signals
  \<open>close\<close>, or \<open>error\<close>, on it.
\<close>

definition rekeyed :: "event list" where
  "rekeyed = [Init alice (AppReady 0), OnError 7, PeerOpen 0 ''ST-alice'',
              PeerConnection 0 ''ST-mallory'', ConnOpen 0,
              ConnData 0 (IDENTITY_EXCHANGE ''pkB'' ''Bob'')]"

text \<open>
  Or else, after the identity exchange, that connection starts to throw on \<open>send\<close>
  and Alice sends \<open>hello\<close> to Bob; the connection the retry makes throws on \<open>send\<close>
  as well, and opens.
\<close>

definition rekeyed_send :: "event list" where
  "rekeyed_send = rekeyed @ [ConnFault 0 True, Send hello]"

definition rekeyed_retry_opens :: "event list" where
  "rekeyed_retry_opens = rekeyed_send @ [ConnFault 1 True, ConnOpen 1]"

text \<open>
  After Alice sent \<open>hello\<close> to the offline Bob: the transport reports
  \<open>peer-unavailable\<close>; later Bob connects to Alice, the new connection opens and
  identifies itself, and Alice sends another envelope.
\<close>

definition bob_returns :: "event list" where
  "bob_returns = [PeerError 0 ''peer-unavailable'' ''ST-bob'', PeerConnection 0 ''ST-bob'',
                  ConnOpen 1, ConnData 1 (IDENTITY_EXCHANGE ''pkB'' ''Bob''),
                  Send (hello\<lparr>msg_id := ''m2''\<rparr>)]"

text \<open>
  A stand-in for the platform, to run the cryptographic functions on: keys are single
  bytes, "AES-GCM" appends the key, the IV and a checksum of the data to the data and
  checks them on decryption, "RSA-OAEP" prefixes the data with the key, the hash is a
  sum of bytes and the key derivation shifts the first half of the key block by the sum
  of the salt. It has the shape of the interface and none of its security.
\<close>

definition demo :: "(8 word, 8 word) platform" where
  "demo = \<lparr>
     aes_gcm_encrypt = (\<lambda>k v d. d @ k @ v @ [sum_list d]),
     aes_gcm_decrypt = (\<lambda>k v c.
        let n = length c - (length k + length v + 1); d = take n c
        in if length k + length v + 1 \<le> length c \<and> drop n c = k @ v @ [sum_list d]
           then Some d else None),
     rsa_oaep_encrypt = (\<lambda>pub seed d. Some (pub # d)),
     rsa_oaep_decrypt = (\<lambda>priv c. case c of [] \<Rightarrow> None
                                       | b # d \<Rightarrow> if b = priv then Some d else None),
     rsa_generate = (\<lambda>r. ((r 0, r 0), \<lambda>i. r (i + 1))),
     export_spki = (\<lambda>pub. [pub]),
     import_spki = (\<lambda>bs. case bs of [b] \<Rightarrow> Some b | _ \<Rightarrow> None),
     export_pkcs8 = (\<lambda>priv. [priv, 0x50]),
     import_pkcs8 = (\<lambda>bs. case bs of [b, t] \<Rightarrow> if t = 0x50 then Some b else None
                                      | _ \<Rightarrow> None),
     sha256 = (\<lambda>d. replicate 32 (sum_list d)),
     pbkdf2_hmac = (\<lambda>block salt n. map (\<lambda>b. b + sum_list salt) (take 32 block)),
     max_arguments = 65536 \<rparr>"

definition tape :: rng where
  "tape = (\<lambda>i. of_nat i)"

definition demo_bob :: User where
  "demo_bob = \<lparr>uid = ''u2'', username = ''Bob'', publicKey = base64_text [7]\<rparr>"

text \<open>The text \<open>hi\<close>, and the same text after a byte order mark.\<close>

definition text_hi :: jsstring where
  "text_hi = [0x68, 0x69]"

definition text_bom_hi :: jsstring where
  "text_bom_hi = [0xFEFF, 0x68, 0x69]"

text \<open>The envelope \<open>sendMessage\<close> builds for \<open>hi\<close> on the stand-in platform, with the
  random bytes of \<open>tape\<close>.\<close>

definition sealed_hi :: EncryptedMessage where
  "sealed_hi = \<lparr>msg_id = ''m1'', senderId = ''Alice'', recipientId = ''Bob'', isGroup = False,
       encryptedContent =
         base64_text (aes_gcm_encrypt demo (map tape [0..<32]) (map tape [32..<44])
                        (TextEncoder_encode text_hi)),
       encryptedSessionKey = base64_text (7 # map tape [0..<32]),
       iv = base64_text (map tape [32..<44]),
       hmac = ''GCM-SECURE'', timestamp = 0\<rparr>"






section \<open>Properties of the socket service\<close>

lemma run_Nil [simp]: "run w [] = w"
  by (simp add: run_def)

lemma run_Cons [simp]: "run w (e # evs) = run (step w e) evs"
  by (simp add: run_def)

lemma run_append: "run w (xs @ ys) = run (run w xs) ys"
  by (simp add: run_def)

text \<open>
  Claim C10. \<open>init\<close> called while \<open>this.peer\<close> is set and not destroyed returns at its
  first line: the whole state (node id, stored user, registry, reconnect state, the
  callbacks registered on the peer, the effects so far) is what it was, for any user
  and any \<open>onReady\<close>; and whatever happens afterwards happens exactly as if \<open>init\<close> had
  not been called, so the \<open>onReady\<close> passed to it is never invoked.
\<close>

theorem init_live_peer_noop:
  assumes "peer w = Some p" and "p < length (peers w)" and "\<not> destroyed (peers w ! p)"
  shows "init user cb w = w \<and> run (init user cb w) evs = run w evs"
  using assms by (simp add: init_def peer_live_def)

theorem init_live_peer_noop_witness:
  "init bob (AppReady 1) alice_started = alice_started
   \<and> effects (run (init bob (AppReady 1) alice_started) [PeerOpen 0 ''ST-alice''])
       = [NewPeer 0 ''ST-alice'', ReadyCalled (AppReady 0) ''ST-alice'']
   \<and> myId (init bob (AppReady 1) alice_started) = ''ST-alice''"
proof -
  have live: "peer alice_started = Some 0" "0 < length (peers alice_started)"
    "\<not> destroyed (peers alice_started ! 0)"
    by code_simp+
  have run0: "effects (run alice_started [PeerOpen 0 ''ST-alice''])
       = [NewPeer 0 ''ST-alice'', ReadyCalled (AppReady 0) ''ST-alice'']"
    by code_simp
  have ident: "myId alice_started = ''ST-alice''"
    by code_simp
  from init_live_peer_noop [OF live, of bob "AppReady 1" "[PeerOpen 0 ''ST-alice'']"]
  show ?thesis using run0 ident by simp
qed

subsection \<open>What each operation leaves alone\<close>

lemma aso_append: "attempts_since_open (xs @ ys) = foldl tally (attempts_since_open xs) ys"
  by (simp add: attempts_since_open_def)

lemma tally_errors [simp]: "foldl tally n (map (\<lambda>h. ErrorTo h ty msg) hs) = n"
  by (induction hs arbitrary: n) auto

lemma tally_messages [simp]: "foldl tally n (map (\<lambda>h. MessageTo h d) hs) = n"
  by (induction hs arbitrary: n) auto

lemma emit_fields [simp]:
  "peer (emit es w) = peer w" "connections (emit es w) = connections w"
  "handlers (emit es w) = handlers w" "errorHandlers (emit es w) = errorHandlers w"
  "myId (emit es w) = myId w" "myUser (emit es w) = myUser w"
  "isOnline (emit es w) = isOnline w" "reconnectDelay (emit es w) = reconnectDelay w"
  "reconnectTimeout (emit es w) = reconnectTimeout w" "isDestroyed (emit es w) = isDestroyed w"
  "peers (emit es w) = peers w" "conns (emit es w) = conns w" "timers (emit es w) = timers w"
  "next_timer (emit es w) = next_timer w"
  by (simp_all add: emit_def)

lemma report_fields [simp]:
  "peer (report ty msg w) = peer w" "connections (report ty msg w) = connections w"
  "handlers (report ty msg w) = handlers w" "errorHandlers (report ty msg w) = errorHandlers w"
  "myId (report ty msg w) = myId w" "myUser (report ty msg w) = myUser w"
  "isOnline (report ty msg w) = isOnline w" "reconnectDelay (report ty msg w) = reconnectDelay w"
  "reconnectTimeout (report ty msg w) = reconnectTimeout w"
  "isDestroyed (report ty msg w) = isDestroyed w"
  "peers (report ty msg w) = peers w" "conns (report ty msg w) = conns w"
  "timers (report ty msg w) = timers w" "next_timer (report ty msg w) = next_timer w"
  by (simp_all add: report_def)

lemma deliver_fields [simp]:
  "peer (deliver d w) = peer w" "connections (deliver d w) = connections w"
  "handlers (deliver d w) = handlers w" "errorHandlers (deliver d w) = errorHandlers w"
  "myId (deliver d w) = myId w" "myUser (deliver d w) = myUser w"
  "isOnline (deliver d w) = isOnline w" "reconnectDelay (deliver d w) = reconnectDelay w"
  "reconnectTimeout (deliver d w) = reconnectTimeout w"
  "isDestroyed (deliver d w) = isDestroyed w"
  "peers (deliver d w) = peers w" "conns (deliver d w) = conns w"
  "timers (deliver d w) = timers w" "next_timer (deliver d w) = next_timer w"
  by (simp_all add: deliver_def)

lemma rs_emit [simp]: "reconnect_state (emit es w) = reconnect_state w"
  by (simp add: emit_def reconnect_state_def)

lemma eff_emit [simp]: "effects (emit es w) = effects w @ es"
  by (simp add: emit_def)

lemma rs_report [simp]: "reconnect_state (report ty msg w) = reconnect_state w"
  by (simp add: report_def)

lemma aso_report [simp]: "attempts_since_open (effects (report ty msg w)) = attempts_since_open (effects w)"
  by (simp add: report_def aso_append)

lemma rs_deliver [simp]: "reconnect_state (deliver d w) = reconnect_state w"
  by (simp add: deliver_def)

lemma aso_deliver [simp]: "attempts_since_open (effects (deliver d w)) = attempts_since_open (effects w)"
  by (simp add: deliver_def aso_append)

lemma rs_init [simp]: "reconnect_state (init u cb w) = reconnect_state w"
  by (simp add: init_def createPeer_def reconnect_state_def emit_def Let_def)

lemma aso_init [simp]: "attempts_since_open (effects (init u cb w)) = attempts_since_open (effects w)"
  by (simp add: init_def createPeer_def aso_append Let_def)

lemma rs_setupConnection [simp]: "reconnect_state (setupConnection c w) = reconnect_state w"
  by (simp add: setupConnection_def reconnect_state_def split: option.splits)

lemma eff_setupConnection [simp]: "effects (setupConnection c w) = effects w"
  by (simp add: setupConnection_def split: option.splits)

lemma rs_send_payloads [simp]: "reconnect_state (send_payloads c ds w) = reconnect_state w"
  by (induction ds arbitrary: w) auto

lemma aso_send_payloads [simp]:
  "attempts_since_open (effects (send_payloads c ds w)) = attempts_since_open (effects w)"
  by (induction ds arbitrary: w) (auto simp: aso_append)

lemma rs_on_conn_open [simp]: "reconnect_state (on_conn_open c w) = reconnect_state w"
  by (simp add: on_conn_open_def Let_def split: option.splits) (simp add: reconnect_state_def)

lemma aso_on_conn_open [simp]:
  "attempts_since_open (effects (on_conn_open c w)) = attempts_since_open (effects w)"
  by (simp add: on_conn_open_def Let_def aso_append split: option.splits)

lemma rs_on_conn_data [simp]: "reconnect_state (on_conn_data c d w) = reconnect_state w"
  by (simp add: on_conn_data_def split: ProtocolMessage.splits) (simp add: reconnect_state_def)

lemma aso_on_conn_data [simp]:
  "attempts_since_open (effects (on_conn_data c d w)) = attempts_since_open (effects w)"
  by (simp add: on_conn_data_def split: ProtocolMessage.splits)

lemma rs_on_conn_close [simp]: "reconnect_state (on_conn_close c w) = reconnect_state w"
  by (simp add: on_conn_close_def cleanup_def Let_def reconnect_state_def)

lemma eff_on_conn_close [simp]: "effects (on_conn_close c w) = effects w"
  by (simp add: on_conn_close_def cleanup_def Let_def)

lemma rs_on_conn_error [simp]: "reconnect_state (on_conn_error c w) = reconnect_state w"
  by (simp add: on_conn_error_def cleanup_def reconnect_state_def)

lemma eff_on_conn_error [simp]: "effects (on_conn_error c w) = effects w"
  by (simp add: on_conn_error_def cleanup_def)

lemma rs_on_peer_connection [simp]: "reconnect_state (on_peer_connection r w) = reconnect_state w"
  by (simp add: on_peer_connection_def) (simp add: reconnect_state_def)

lemma eff_on_peer_connection [simp]: "effects (on_peer_connection r w) = effects w"
  by (simp add: on_peer_connection_def)

lemma rs_peer_connect:
  "peer_connect t w = Some (c, w') \<Longrightarrow> reconnect_state w' = reconnect_state w"
  by (auto simp: peer_connect_def Let_def reconnect_state_def emit_def split: option.splits if_splits)

lemma aso_peer_connect:
  "peer_connect t w = Some (c, w') \<Longrightarrow>
     attempts_since_open (effects w') = attempts_since_open (effects w)"
  by (auto simp: peer_connect_def Let_def aso_append split: option.splits if_splits)

lemma rs_add_open_payload [simp]: "reconnect_state (add_open_payload c d w) = reconnect_state w"
  by (simp add: add_open_payload_def reconnect_state_def)

lemma eff_add_open_payload [simp]: "effects (add_open_payload c d w) = effects w"
  by (simp add: add_open_payload_def)

lemma rs_send_fresh [simp]: "reconnect_state (send_fresh m w) = reconnect_state w"
  by (auto simp: send_fresh_def rs_peer_connect split: option.splits)

lemma aso_send_fresh [simp]:
  "attempts_since_open (effects (send_fresh m w)) = attempts_since_open (effects w)"
  by (auto simp: send_fresh_def aso_peer_connect split: option.splits)

lemma rs_evict [simp]: "reconnect_state (evict k w) = reconnect_state w"
  by (simp add: evict_def reconnect_state_def)

lemma eff_evict [simp]: "effects (evict k w) = effects w"
  by (simp add: evict_def)

lemma evict_fields [simp]:
  "peer (evict k w) = peer w" "handlers (evict k w) = handlers w"
  "errorHandlers (evict k w) = errorHandlers w" "myId (evict k w) = myId w"
  "myUser (evict k w) = myUser w" "isOnline (evict k w) = isOnline w"
  "isDestroyed (evict k w) = isDestroyed w" "peers (evict k w) = peers w"
  "conns (evict k w) = conns w"
  "connections (evict k w) = AList.delete k (connections w)"
  by (simp_all add: evict_def)

lemma open_conn_evicted [simp]: "open_conn k (report ty msg (evict k w)) = None"
  by (simp add: open_conn_def evict_def delete_conv)

lemma send_unfold:
  "send m w =
     (if \<not> isOnline w then report ''transport'' ''Signal dropped: Node is offline.'' w
      else case open_conn (nodeId (recipientId m)) w of
             None \<Rightarrow> send_fresh m w
           | Some c \<Rightarrow>
               if send_throws (conns w ! c)
               then send_fresh m (report ''send-fail'' ''Transmission failed. Retrying...''
                                    (evict (nodeId (recipientId m)) w))
               else emit [ConnSend c (CHAT m)] w)"
proof -
  have retry: "send m (report ''send-fail'' ''Transmission failed. Retrying...''
                         (evict (nodeId (recipientId m)) w))
      = send_fresh m (report ''send-fail'' ''Transmission failed. Retrying...''
                         (evict (nodeId (recipientId m)) w))" if "isOnline w"
    using that by (subst send.simps) simp
  show ?thesis
    by (subst send.simps) (simp add: retry split: option.splits)
qed

lemma rs_send [simp]: "reconnect_state (send m w) = reconnect_state w"
  by (simp add: send_unfold split: option.splits)

lemma aso_send [simp]: "attempts_since_open (effects (send m w)) = attempts_since_open (effects w)"
  by (simp add: send_unfold aso_append split: option.splits)

lemma rs_connectToPeer [simp]: "reconnect_state (connectToPeer n w) = reconnect_state w"
  by (auto simp: connectToPeer_def Let_def rs_peer_connect split: option.splits)

lemma aso_connectToPeer [simp]:
  "attempts_since_open (effects (connectToPeer n w)) = attempts_since_open (effects w)"
  by (auto simp: connectToPeer_def Let_def aso_peer_connect split: option.splits)


lemma rs_delay: "reconnect_state w' = reconnect_state w \<Longrightarrow> reconnectDelay w' = reconnectDelay w"
  by (simp add: reconnect_state_def)

lemmas delay_frames [simp] =
  rs_delay [OF rs_init] rs_delay [OF rs_setupConnection] rs_delay [OF rs_send_payloads]
  rs_delay [OF rs_on_conn_open] rs_delay [OF rs_on_conn_data] rs_delay [OF rs_on_conn_close]
  rs_delay [OF rs_on_conn_error] rs_delay [OF rs_on_peer_connection] rs_delay [OF rs_send_fresh]
  rs_delay [OF rs_send] rs_delay [OF rs_connectToPeer]

lemma delay_handleReconnect [simp]: "reconnectDelay (handleReconnect w) = reconnectDelay w"
  by (simp add: handleReconnect_def Let_def)

lemma aso_handleReconnect [simp]:
  "attempts_since_open (effects (handleReconnect w)) = attempts_since_open (effects w)"
  by (simp add: handleReconnect_def Let_def aso_append)

lemma delay_peer_reconnect [simp]: "reconnectDelay (peer_reconnect w) = reconnectDelay w"
  by (simp add: peer_reconnect_def split: option.splits)

lemma aso_peer_reconnect [simp]:
  "attempts_since_open (effects (peer_reconnect w)) = attempts_since_open (effects w)"
  by (simp add: peer_reconnect_def aso_append split: option.splits)

lemma delay_reconnect_attempt:
  "reconnectDelay (reconnect_attempt w) = min (reconnectDelay w * (3 / 2)) maxReconnectDelay"
  by (simp add: reconnect_attempt_def Let_def split: option.splits)

lemma aso_reconnect_attempt:
  "attempts_since_open (effects (reconnect_attempt w)) = Suc (attempts_since_open (effects w))"
  by (simp add: reconnect_attempt_def Let_def aso_append split: option.splits)

lemma delay_on_peer_open: "reconnectDelay (on_peer_open p ident w) = 1000"
  by (simp add: on_peer_open_def)

lemma aso_on_peer_open: "attempts_since_open (effects (on_peer_open p ident w)) = 0"
  by (simp add: on_peer_open_def aso_append)

lemma delay_on_peer_error [simp]: "reconnectDelay (on_peer_error ty msg w) = reconnectDelay w"
  by (simp add: on_peer_error_def)

lemma aso_on_peer_error [simp]:
  "attempts_since_open (effects (on_peer_error ty msg w)) = attempts_since_open (effects w)"
  by (simp add: on_peer_error_def)

lemma delay_on_peer_disconnected [simp]:
  "reconnectDelay (on_peer_disconnected p w) = reconnectDelay w"
  by (simp add: on_peer_disconnected_def)

lemma aso_on_peer_disconnected [simp]:
  "attempts_since_open (effects (on_peer_disconnected p w)) = attempts_since_open (effects w)"
  by (simp add: on_peer_disconnected_def)

lemma delay_on_peer_close [simp]: "reconnectDelay (on_peer_close p w) = reconnectDelay w"
  by (simp add: on_peer_close_def Let_def)

lemma aso_on_peer_close [simp]:
  "attempts_since_open (effects (on_peer_close p w)) = attempts_since_open (effects w)"
  by (simp add: on_peer_close_def Let_def)

lemma delay_close_all [simp]: "reconnectDelay (close_all cs w) = reconnectDelay w"
  by (induction cs arbitrary: w) auto

lemma aso_close_all [simp]:
  "attempts_since_open (effects (close_all cs w)) = attempts_since_open (effects w)"
  by (induction cs arbitrary: w) (auto simp: aso_append)

lemma delay_destroy [simp]: "reconnectDelay (destroy w) = reconnectDelay w"
  by (simp add: destroy_def Let_def peer_destroy_def clear_reconnect_timeout_def
        split: option.splits)

lemma aso_destroy [simp]:
  "attempts_since_open (effects (destroy w)) = attempts_since_open (effects w)"
  by (simp add: destroy_def Let_def peer_destroy_def clear_reconnect_timeout_def aso_append
        split: option.splits)

lemma backoff_arith:
  fixes x :: rat
  assumes "0 \<le> x"
  shows "min (min x 30000 * (3 / 2)) 30000 = min (x * (3 / 2)) 30000"
  using assms by (simp add: min_def)

lemma backoff_step: "backoff_inv w \<Longrightarrow> backoff_inv (step w e)"
proof (cases e)
  case (TimerFired t)
  assume inv: "backoff_inv w"
  let ?w = "w\<lparr>timers := filter (\<lambda>(i, d). i \<noteq> t) (timers w)\<rparr>"
  have "backoff_inv ?w" using inv by (simp add: backoff_inv_def)
  then have "backoff_inv (reconnect_attempt ?w)"
    using backoff_arith [of "1000 * (3 / 2) ^ attempts_since_open (effects w)"]
    by (simp add: backoff_inv_def delay_reconnect_attempt aso_reconnect_attempt
          maxReconnectDelay_def mult.assoc)
  with inv TimerFired show ?thesis by simp
qed (simp_all add: backoff_inv_def delay_on_peer_open aso_on_peer_open
       onMessage_def offMessage_def onError_def offError_def)

lemma backoff_run: "backoff_inv w \<Longrightarrow> backoff_inv (run w evs)"
  by (induction evs arbitrary: w) (simp_all add: backoff_step)

text \<open>
  Claim C5. From the initial state, after any sequence of events, the delay the next
  reconnect timer will be scheduled with is \<open>min (1000 * 1.5^N) 30000\<close>, where \<open>N\<close>
  counts the reconnect attempts since the transport last reported \<open>open\<close>. Each run
  of the timeout callback multiplies the delay by 1.5 up to the ceiling, whatever the
  attempt did; the \<open>open\<close> handler of the peer sets it back to 1000; and a timer
  scheduled when none is stored is scheduled with exactly that delay.
\<close>

theorem reconnect_backoff:
  "reconnectDelay (run initial evs)
     = min (1000 * (3 / 2) ^ attempts_since_open (effects (run initial evs))) 30000
   \<and> reconnectDelay (reconnect_attempt w) = min (reconnectDelay w * (3 / 2)) 30000
   \<and> attempts_since_open (effects (reconnect_attempt w))
       = Suc (attempts_since_open (effects w))
   \<and> reconnectDelay (on_peer_open p ident w) = 1000
   \<and> attempts_since_open (effects (on_peer_open p ident w)) = 0
   \<and> timers (handleReconnect (w\<lparr>reconnectTimeout := None\<rparr>))
       = timers w @ [(next_timer w, reconnectDelay w)]"
proof -
  have "backoff_inv initial"
    by (simp add: backoff_inv_def initial_def attempts_since_open_def)
  then have "backoff_inv (run initial evs)"
    by (rule backoff_run)
  then show ?thesis
    by (simp add: backoff_inv_def delay_reconnect_attempt aso_reconnect_attempt
          delay_on_peer_open aso_on_peer_open maxReconnectDelay_def
          handleReconnect_def truthy_def Let_def)
qed

subsection \<open>The reconnect timer\<close>

lemma rs_updates [simp]:
  "reconnect_state (w\<lparr>peer := a\<rparr>) = reconnect_state w"
  "reconnect_state (w\<lparr>connections := b\<rparr>) = reconnect_state w"
  "reconnect_state (w\<lparr>handlers := c\<rparr>) = reconnect_state w"
  "reconnect_state (w\<lparr>errorHandlers := d\<rparr>) = reconnect_state w"
  "reconnect_state (w\<lparr>myId := e\<rparr>) = reconnect_state w"
  "reconnect_state (w\<lparr>myUser := f\<rparr>) = reconnect_state w"
  "reconnect_state (w\<lparr>isOnline := g\<rparr>) = reconnect_state w"
  "reconnect_state (w\<lparr>isDestroyed := h\<rparr>) = reconnect_state w"
  "reconnect_state (w\<lparr>peers := i\<rparr>) = reconnect_state w"
  "reconnect_state (w\<lparr>conns := j\<rparr>) = reconnect_state w"
  "reconnect_state (w\<lparr>effects := k\<rparr>) = reconnect_state w"
  by (simp_all add: reconnect_state_def)

lemma timer_inv_unfold:
  "timer_inv w =
     (next_timer w \<noteq> 0 \<and>
      (timers w = [] \<or>
       (\<exists>t d. timers w = [(t, d)] \<and> reconnectTimeout w = Some t \<and> t \<noteq> 0)))"
  by (cases "timers w" rule: remdups_adj.cases)
     (auto simp: timer_inv_def timers_ok_def reconnect_state_def)

lemma timer_inv_handleReconnect: "timer_inv w \<Longrightarrow> timer_inv (handleReconnect w)"
  by (auto simp: timer_inv_unfold handleReconnect_def truthy_def Let_def
           split: option.splits)

lemma rs_peer_reconnect [simp]: "reconnect_state (peer_reconnect w) = reconnect_state w"
  by (simp add: peer_reconnect_def reconnect_state_def split: option.splits)

lemma rs_reconnect_attempt:
  "reconnect_state (reconnect_attempt w)
     = (min (reconnectDelay w * (3 / 2)) maxReconnectDelay, None, timers w, next_timer w)"
proof -
  let ?w0 = "emit [ReconnectAttempt (reconnectDelay w)] w"
  let ?w1 = "if peer_resumable ?w0 then peer_reconnect ?w0
             else if \<not> peer_live ?w0
             then (case myUser ?w0 of Some u \<Rightarrow> init u NoopReady ?w0 | None \<Rightarrow> ?w0)
             else ?w0"
  have "reconnect_state ?w1 = reconnect_state w"
    by (simp split: option.splits)
  then have "reconnectDelay ?w1 = reconnectDelay w" "timers ?w1 = timers w"
    "next_timer ?w1 = next_timer w"
    by (simp_all add: reconnect_state_def)
  then show ?thesis
    by (simp add: reconnect_attempt_def Let_def reconnect_state_def)
qed

lemma timer_inv_fired:
  assumes "timer_inv w" and "t \<in> fst ` set (timers w)"
  shows "timer_inv (reconnect_attempt (w\<lparr>timers := filter (\<lambda>(i, d). i \<noteq> t) (timers w)\<rparr>))"
  using assms
  by (simp add: timer_inv_def rs_reconnect_attempt)
     (auto simp: timers_ok_def reconnect_state_def split: list.splits)

lemma rs_close_all [simp]: "reconnect_state (close_all cs w) = reconnect_state w"
  by (induction cs arbitrary: w) (auto simp: reconnect_state_def)

lemma rs_peer_destroy [simp]: "reconnect_state (peer_destroy w) = reconnect_state w"
  by (simp add: peer_destroy_def reconnect_state_def split: option.splits)

lemma timer_inv_clear: "timer_inv w \<Longrightarrow> timer_inv (clear_reconnect_timeout w)"
  by (auto simp: timer_inv_unfold clear_reconnect_timeout_def split: option.splits)

lemma rs_destroy:
  "reconnect_state (destroy w) = reconnect_state (clear_reconnect_timeout w)"
  by (simp add: destroy_def Let_def)
     (simp add: clear_reconnect_timeout_def reconnect_state_def emit_def split: option.splits)

lemma timer_inv_destroy: "timer_inv w \<Longrightarrow> timer_inv (destroy w)"
  using timer_inv_clear [of w] by (simp add: timer_inv_def rs_destroy)

lemma rs_on_peer_error:
  "reconnect_state (on_peer_error ty msg w)
     = (if ty = ''network'' then reconnect_state (handleReconnect w) else reconnect_state w)"
  by (simp add: on_peer_error_def)

lemma timer_inv_on_peer_error: "timer_inv w \<Longrightarrow> timer_inv (on_peer_error ty msg w)"
  using timer_inv_handleReconnect [of w] by (simp add: timer_inv_def rs_on_peer_error)

lemma timer_inv_on_peer_disconnected: "timer_inv w \<Longrightarrow> timer_inv (on_peer_disconnected p w)"
  unfolding on_peer_disconnected_def
  by (rule timer_inv_handleReconnect) (simp add: timer_inv_def)

lemma timer_inv_on_peer_close: "timer_inv w \<Longrightarrow> timer_inv (on_peer_close p w)"
proof -
  assume a: "timer_inv w"
  let ?w = "w\<lparr>peers := (peers w)[p := (peers w ! p)\<lparr>destroyed := True\<rparr>], isOnline := False\<rparr>"
  have "timer_inv ?w" using a by (simp add: timer_inv_def)
  then show ?thesis using timer_inv_handleReconnect [of ?w]
    by (simp add: on_peer_close_def Let_def)
qed

lemma timer_inv_step: "timer_inv w \<Longrightarrow> timer_inv (step w e)"
proof (cases e)
  case (TimerFired t)
  assume "timer_inv w"
  with TimerFired show ?thesis by (simp add: timer_inv_fired)
next
  case (PeerOpen p ident)
  assume "timer_inv w"
  with PeerOpen show ?thesis
    by (auto simp: on_peer_open_def timer_inv_def reconnect_state_def timers_ok_def
          split: list.splits)
next
  case (PeerError p ty msg)
  assume "timer_inv w"
  with PeerError show ?thesis by (simp add: timer_inv_on_peer_error)
next
  case (PeerDisconnected p)
  assume "timer_inv w"
  with PeerDisconnected show ?thesis by (simp add: timer_inv_on_peer_disconnected)
next
  case (PeerClose p)
  assume "timer_inv w"
  with PeerClose show ?thesis by (simp add: timer_inv_on_peer_close)
next
  case Destroy
  assume "timer_inv w"
  with Destroy show ?thesis by (simp add: timer_inv_destroy)
qed (simp_all add: timer_inv_def onMessage_def offMessage_def onError_def offError_def)

lemma timer_inv_run: "timer_inv w \<Longrightarrow> timer_inv (run w evs)"
  by (induction evs arbitrary: w) (simp_all add: timer_inv_step)

text \<open>
  In every state reachable from the initial one at most one reconnect timeout is
  pending, and it is the one whose handle \<open>reconnectTimeout\<close> stores. While a timeout
  is pending, a drop event (the peer's \<open>disconnected\<close>, its \<open>close\<close>, or an error of type
  \<open>network\<close>) schedules nothing and leaves the reconnect state (delay, stored handle,
  pending timeouts, next handle) as it was. A drop that finds no stored handle schedules
  exactly one timeout, with the current delay (for \<open>close\<close>: unless the service was
  destroyed). What a drop does when no timeout is pending and a handle is stored all
  the same is shown at the end of this subsection.
\<close>

lemma reconnect_timer_invariant:
  "timer_inv (run initial evs)
   \<and> length (timers (run initial evs)) \<le> 1
   \<and> (timers (run initial evs) \<noteq> [] \<longrightarrow>
        reconnect_state (step (run initial evs) (PeerDisconnected p))
          = reconnect_state (run initial evs)
        \<and> reconnect_state (step (run initial evs) (PeerClose p))
          = reconnect_state (run initial evs)
        \<and> reconnect_state (step (run initial evs) (PeerError p ''network'' msg))
          = reconnect_state (run initial evs))
   \<and> (reconnectTimeout (run initial evs) = None \<and> p < length (peers (run initial evs)) \<longrightarrow>
        timers (step (run initial evs) (PeerDisconnected p))
          = [(next_timer (run initial evs), reconnectDelay (run initial evs))]
        \<and> timers (step (run initial evs) (PeerError p ''network'' msg))
          = [(next_timer (run initial evs), reconnectDelay (run initial evs))]
        \<and> (\<not> isDestroyed (run initial evs) \<longrightarrow>
             timers (step (run initial evs) (PeerClose p))
               = [(next_timer (run initial evs), reconnectDelay (run initial evs))]))"
proof -
  define w where "w = run initial evs"
  have "timer_inv initial"
    by (simp add: timer_inv_def timers_ok_def reconnect_state_def initial_def)
  then have inv: "timer_inv w"
    unfolding w_def by (rule timer_inv_run)
  then have len: "length (timers w) \<le> 1"
    by (auto simp: timer_inv_unfold)
  have pending: "reconnect_state (handleReconnect v) = reconnect_state v"
    if "truthy (reconnectTimeout v)" for v
    using that by (simp add: handleReconnect_def)
  have held: "truthy (reconnectTimeout w)" if "timers w \<noteq> []"
    using inv that by (auto simp: timer_inv_unfold truthy_def)
  have quiet: "reconnect_state (step w (PeerDisconnected p)) = reconnect_state w
      \<and> reconnect_state (step w (PeerClose p)) = reconnect_state w
      \<and> reconnect_state (step w (PeerError p ''network'' msg)) = reconnect_state w"
    if "timers w \<noteq> []"
  proof -
    have t: "truthy (reconnectTimeout w)" using that by (rule held)
    have 1: "reconnect_state (on_peer_disconnected p w) = reconnect_state w"
      using pending [of "w\<lparr>peers := (peers w)[p := (peers w ! p)\<lparr>disconnected := True\<rparr>],
                            isOnline := False\<rparr>"] t
      by (simp add: on_peer_disconnected_def)
    have 2: "reconnect_state (on_peer_close p w) = reconnect_state w"
      using pending [of "w\<lparr>peers := (peers w)[p := (peers w ! p)\<lparr>destroyed := True\<rparr>],
                            isOnline := False\<rparr>"] t
      by (simp add: on_peer_close_def Let_def)
    have 3: "reconnect_state (on_peer_error ''network'' msg w) = reconnect_state w"
      using pending [of w] t by (simp add: rs_on_peer_error)
    show ?thesis using 1 2 3 by simp
  qed
  have fresh: "timers (handleReconnect v) = [(next_timer v, reconnectDelay v)]"
    if "reconnectTimeout v = None" "timers v = []" for v
    using that by (simp add: handleReconnect_def truthy_def Let_def)
  have sched: "timers (step w (PeerDisconnected p)) = [(next_timer w, reconnectDelay w)]
      \<and> timers (step w (PeerError p ''network'' msg)) = [(next_timer w, reconnectDelay w)]
      \<and> (\<not> isDestroyed w \<longrightarrow>
           timers (step w (PeerClose p)) = [(next_timer w, reconnectDelay w)])"
    if "reconnectTimeout w = None" "p < length (peers w)"
  proof -
    have e: "timers w = []"
      using inv that(1) by (auto simp: timer_inv_unfold)
    have 1: "timers (on_peer_disconnected p w) = [(next_timer w, reconnectDelay w)]"
      using fresh [of "w\<lparr>peers := (peers w)[p := (peers w ! p)\<lparr>disconnected := True\<rparr>],
                          isOnline := False\<rparr>"] that(1) e
      by (simp add: on_peer_disconnected_def)
    have 2: "timers (on_peer_close p w) = [(next_timer w, reconnectDelay w)]"
      if "\<not> isDestroyed w"
      using fresh [of "w\<lparr>peers := (peers w)[p := (peers w ! p)\<lparr>destroyed := True\<rparr>],
                          isOnline := False\<rparr>"] \<open>reconnectTimeout w = None\<close> e that
      by (simp add: on_peer_close_def Let_def)
    have 3: "timers (on_peer_error ''network'' msg w) = [(next_timer w, reconnectDelay w)]"
      using fresh [of w] that(1) e by (simp add: on_peer_error_def)
    show ?thesis using 1 2 3 that(2) by simp
  qed
  show ?thesis
    using inv len quiet sched unfolding w_def by blast
qed

lemma reconnect_timer_example:
  "timers (run initial alice_dropped) = [(1, 1000)]
   \<and> reconnect_state (step (run initial alice_dropped) (PeerDisconnected 0))
       = (1000, Some 1, [(1, 1000)], 2)
   \<and> reconnect_state (step (run initial alice_dropped) (PeerClose 0))
       = (1000, Some 1, [(1, 1000)], 2)
   \<and> reconnect_state (step (run initial alice_dropped) (PeerError 0 ''network'' ''lost''))
       = (1000, Some 1, [(1, 1000)], 2)
   \<and> timers (step alice_online (PeerDisconnected 0)) = [(1, 1000)]"
proof -
  have a: "timers (run initial alice_dropped) = [(1, 1000)]"
    "reconnect_state (run initial alice_dropped) = (1000, Some 1, [(1, 1000)], 2)"
    by code_simp+
  have b: "reconnectTimeout (run initial [Init alice (AppReady 0), OnError 7,
                PeerOpen 0 ''ST-alice'']) = None"
    "0 < length (peers (run initial [Init alice (AppReady 0), OnError 7,
                PeerOpen 0 ''ST-alice'']))"
    "next_timer (run initial [Init alice (AppReady 0), OnError 7,
                PeerOpen 0 ''ST-alice'']) = 1"
    "reconnectDelay (run initial [Init alice (AppReady 0), OnError 7,
                PeerOpen 0 ''ST-alice'']) = 1000"
    by code_simp+
  from reconnect_timer_invariant [of alice_dropped 0 "''lost''"] a
  have 1: "reconnect_state (step (run initial alice_dropped) (PeerDisconnected 0))
       = (1000, Some 1, [(1, 1000)], 2)
   \<and> reconnect_state (step (run initial alice_dropped) (PeerClose 0))
       = (1000, Some 1, [(1, 1000)], 2)
   \<and> reconnect_state (step (run initial alice_dropped) (PeerError 0 ''network'' ''lost''))
       = (1000, Some 1, [(1, 1000)], 2)"
    by simp
  from reconnect_timer_invariant [of "[Init alice (AppReady 0), OnError 7, PeerOpen 0 ''ST-alice'']"
         0 "''lost''"] b
  have 2: "timers (step alice_online (PeerDisconnected 0)) = [(1, 1000)]"
    unfolding alice_online_def by simp
  show ?thesis using a(1) 1 2 by simp
qed

text \<open>
  Claim C6 (at the events: \<open>init\<close>, the peer opens, the peer is disconnected,
  \<open>destroy\<close>, the peer closes, \<open>init\<close>, the new peer opens). \<open>destroy\<close> cancels the pending timeout
  with \<open>clearTimeout\<close> and leaves its handle in \<open>reconnectTimeout\<close>; only the callback
  of the timeout resets that field (as it does when the timeout fires without a
  \<open>destroy\<close>), and the callback will not run. After the restart no timeout is pending
  and the node is online, yet \<open>handleReconnect\<close> finds the stale handle and returns:
  neither the peer's \<open>disconnected\<close>, nor its \<open>close\<close>, nor a \<open>network\<close> error
  schedules a timeout, and the node does not reconnect.
\<close>

theorem stale_handle_blocks_reconnect:
  "reconnect_state (run initial alice_dropped) = (1000, Some 1, [(1, 1000)], 2)
   \<and> reconnect_state (run initial (alice_dropped @ [TimerFired 1])) = (1500, None, [], 2)
   \<and> reconnect_state (run initial alice_restarted) = (1000, Some 1, [], 2)
   \<and> step (run initial alice_restarted) (TimerFired 1) = run initial alice_restarted
   \<and> isOnline (run initial alice_restarted)
   \<and> \<not> isDestroyed (run initial alice_restarted)
   \<and> peer (run initial alice_restarted) = Some 1
   \<and> reconnect_state (step (run initial alice_restarted) (PeerDisconnected 1))
       = (1000, Some 1, [], 2)
   \<and> reconnect_state (step (run initial alice_restarted) (PeerClose 1))
       = (1000, Some 1, [], 2)
   \<and> reconnect_state (step (run initial alice_restarted) (PeerError 1 ''network'' ''lost''))
       = (1000, Some 1, [], 2)
   \<and> effects (step (run initial alice_restarted) (PeerDisconnected 1))
       = effects (run initial alice_restarted)
   \<and> effects (step (run initial alice_restarted) (PeerClose 1))
       = effects (run initial alice_restarted)"
  by code_simp

subsection \<open>Sending\<close>

lemma connections_setupConnection [simp]: "connections (setupConnection c w) = connections w"
  by (simp add: setupConnection_def split: option.splits)

lemma connections_add_open_payload [simp]: "connections (add_open_payload c d w) = connections w"
  by (simp add: add_open_payload_def)

lemma peer_connect_SomeD:
  "peer_connect t w = Some (c, w') \<Longrightarrow>
     \<exists>p. peer w = Some p \<and> p < length (peers w) \<and> \<not> connect_throws (peers w ! p)
         \<and> c = length (conns w)
         \<and> w' = emit [PeerConnect p t c] (w\<lparr>conns := conns w @ [new_conn t]\<rparr>)"
  by (auto simp: peer_connect_def Let_def split: option.splits if_splits)

lemma connections_send_fresh [simp]: "connections (send_fresh m w) = connections w"
  by (auto simp: send_fresh_def split: option.splits dest!: peer_connect_SomeD)

lemma peer_connect_report_evict:
  "peer_connect t (report ty msg (evict k w)) = None \<longleftrightarrow> peer_connect t w = None"
  by (simp add: peer_connect_def Let_def split: option.splits)

lemma send_fresh_unreachable:
  "peer_connect (nodeId (recipientId m)) w = None \<Longrightarrow>
     send_fresh m w = report ''send-fail'' (''Could not reach node '' @ recipientId m) w"
  by (simp add: send_fresh_def)

lemma effects_report: "effects (report ty msg w) = effects w @ map (\<lambda>h. ErrorTo h ty msg) (errorHandlers w)"
  by (simp add: report_def)

text \<open>
  \<open>send\<close> calls itself at most once: when the node is online, the registry holds an
  open connection for the recipient and \<open>conn.send\<close> throws, the entry under the
  recipient's node id is deleted, the failure is reported to the error handlers, and
  the second call, finding no entry for the recipient, takes the branch that makes one
  outbound connect and cannot call \<open>send\<close> again. When that connect throws too, the
  second failure is reported as \<open>send-fail\<close> and nothing else happens. The right-hand
  side below does not mention \<open>send\<close>, and \<open>send\<close> is a total function of every
  message and state.
\<close>

lemma send_retry_bounded:
  "send m w =
     (if \<not> isOnline w then report ''transport'' ''Signal dropped: Node is offline.'' w
      else case open_conn (nodeId (recipientId m)) w of
             None \<Rightarrow> send_fresh m w
           | Some c \<Rightarrow>
               if send_throws (conns w ! c)
               then send_fresh m (report ''send-fail'' ''Transmission failed. Retrying...''
                                    (evict (nodeId (recipientId m)) w))
               else emit [ConnSend c (CHAT m)] w)
   \<and> (isOnline w \<and> open_conn (nodeId (recipientId m)) w = Some c \<and> send_throws (conns w ! c) \<longrightarrow>
        connections (send m w) = AList.delete (nodeId (recipientId m)) (connections w)
        \<and> (peer_connect (nodeId (recipientId m)) w = None \<longrightarrow>
             effects (send m w)
               = effects w
                 @ map (\<lambda>h. ErrorTo h ''send-fail'' ''Transmission failed. Retrying...'')
                     (errorHandlers w)
                 @ map (\<lambda>h. ErrorTo h ''send-fail'' (''Could not reach node '' @ recipientId m))
                     (errorHandlers w)
             \<and> conns (send m w) = conns w))"
proof -
  let ?t = "nodeId (recipientId m)"
  let ?w' = "report ''send-fail'' ''Transmission failed. Retrying...'' (evict ?t w)"
  have eq: "send m w =
     (if \<not> isOnline w then report ''transport'' ''Signal dropped: Node is offline.'' w
      else case open_conn ?t w of
             None \<Rightarrow> send_fresh m w
           | Some c \<Rightarrow>
               if send_throws (conns w ! c) then send_fresh m ?w'
               else emit [ConnSend c (CHAT m)] w)"
    by (rule send_unfold)
  have retry: "send m w = send_fresh m ?w'"
    if "isOnline w" "open_conn ?t w = Some c" "send_throws (conns w ! c)"
    using that by (simp add: eq)
  have reg: "connections (send m w) = AList.delete ?t (connections w)"
    if "isOnline w" "open_conn ?t w = Some c" "send_throws (conns w ! c)"
    using retry [OF that] by simp
  have fail: "effects (send m w)
               = effects w
                 @ map (\<lambda>h. ErrorTo h ''send-fail'' ''Transmission failed. Retrying...'')
                     (errorHandlers w)
                 @ map (\<lambda>h. ErrorTo h ''send-fail'' (''Could not reach node '' @ recipientId m))
                     (errorHandlers w)
             \<and> conns (send m w) = conns w"
    if "isOnline w" "open_conn ?t w = Some c" "send_throws (conns w ! c)"
       "peer_connect ?t w = None"
  proof -
    have "peer_connect ?t ?w' = None"
      using that(4) by (simp add: peer_connect_report_evict)
    then have "send m w = report ''send-fail'' (''Could not reach node '' @ recipientId m) ?w'"
      using retry [OF that(1-3)] by (simp add: send_fresh_unreachable)
    then show ?thesis by (simp add: effects_report)
  qed
  show ?thesis using eq reg fail by blast
qed

lemma send_retry_bounded_example:
  "effects (send hello alice_faulty)
     = effects alice_faulty
       @ [ErrorTo 7 ''send-fail'' ''Transmission failed. Retrying...'',
          ErrorTo 7 ''send-fail'' ''Could not reach node Bob'']
   \<and> connections alice_faulty = [(''ST-bob'', 0)]
   \<and> connections (send hello alice_faulty) = []
   \<and> conns (send hello alice_faulty) = conns alice_faulty"
proof -
  have h: "isOnline alice_faulty"
    "open_conn (nodeId (recipientId hello)) alice_faulty = Some 0"
    "send_throws (conns alice_faulty ! 0)"
    "peer_connect (nodeId (recipientId hello)) alice_faulty = None"
    by code_simp+
  have v: "connections alice_faulty = [(''ST-bob'', 0)]" "errorHandlers alice_faulty = [7]"
    "recipientId hello = ''Bob''" "nodeId (recipientId hello) = ''ST-bob''"
    by code_simp+
  from send_retry_bounded [of hello alice_faulty 0] h
  have "connections (send hello alice_faulty)
          = AList.delete (nodeId (recipientId hello)) (connections alice_faulty)"
    and "effects (send hello alice_faulty)
          = effects alice_faulty
            @ map (\<lambda>h. ErrorTo h ''send-fail'' ''Transmission failed. Retrying...'')
                (errorHandlers alice_faulty)
            @ map (\<lambda>h. ErrorTo h ''send-fail'' (''Could not reach node '' @ recipientId hello))
                (errorHandlers alice_faulty)"
    and "conns (send hello alice_faulty) = conns alice_faulty"
    by blast+
  then show ?thesis using v by simp
qed

text \<open>
  Claim C8 (at the registry that holds one connection under two keys, its transport id
  \<open>ST-mallory\<close> and the re-keyed \<open>ST-bob\<close>, when that connection throws on \<open>send\<close>).
  \<open>send\<close> deletes the key of the recipient, reports and retries with a fresh connect;
  the connection that threw is still in the registry under its other key, open, and
  \<open>getActiveConnections\<close> lists it. And when the connection of the retry opens and
  throws on \<open>send\<close> as well, the exception leaves the \<open>open\<close> listeners: no error
  handler is called, the envelope is not transmitted, and the registry is as it was.
\<close>

theorem thrown_connection_stays_registered:
  "connections (run initial rekeyed) = [(''ST-mallory'', 0), (''ST-bob'', 0)]
   \<and> effects (run initial rekeyed_send)
       = effects (run initial rekeyed)
         @ [ErrorTo 7 ''send-fail'' ''Transmission failed. Retrying...'',
            PeerConnect 0 ''ST-bob'' 1]
   \<and> connections (run initial rekeyed_send) = [(''ST-mallory'', 0)]
   \<and> conn_open (conns (run initial rekeyed_send) ! 0)
   \<and> send_throws (conns (run initial rekeyed_send) ! 0)
   \<and> getActiveConnections (run initial rekeyed_send) = [''ST-mallory'']
   \<and> payloads (run initial rekeyed_send) = [[], [CHAT hello]]
   \<and> effects (run initial rekeyed_retry_opens) = effects (run initial rekeyed_send)
   \<and> sends_of hello (effects (run initial rekeyed_retry_opens)) = 0
   \<and> connections (run initial rekeyed_retry_opens) = [(''ST-mallory'', 0)]"
  by code_simp

subsection \<open>Node identifiers\<close>

lemma of_char_lowerChar:
  "(of_char (lowerChar c) :: nat) =
     (if (65 \<le> (of_char c :: nat) \<and> (of_char c :: nat) \<le> 90)
         \<or> (192 \<le> (of_char c :: nat) \<and> (of_char c :: nat) \<le> 222 \<and> (of_char c :: nat) \<noteq> 215)
      then of_char c + 32 else of_char c)"
  by (auto simp: lowerChar_def Let_def)

lemma lowerChar_idem [simp]: "lowerChar (lowerChar c) = lowerChar c"
proof -
  have "(of_char (lowerChar (lowerChar c)) :: nat) = of_char (lowerChar c)"
    by (simp add: of_char_lowerChar)
  then show ?thesis by (simp only: of_char_eq_iff)
qed

lemma isWhiteSpace_lowerChar [simp]: "isWhiteSpace (lowerChar c) = isWhiteSpace c"
  by (auto simp: isWhiteSpace_def of_char_lowerChar)

lemma toLowerCase_idem [simp]: "toLowerCase (toLowerCase s) = toLowerCase s"
  by (simp add: toLowerCase_def)

lemma trim_toLowerCase: "trim (toLowerCase s) = toLowerCase (trim s)"
  by (simp add: trim_def toLowerCase_def dropWhile_map rev_map comp_def)

lemma dropWhile_fixed: "xs = [] \<or> \<not> P (hd xs) \<Longrightarrow> dropWhile P xs = xs"
  by (cases xs) auto

lemma dropWhile_last: "dropWhile P xs \<noteq> [] \<Longrightarrow> last (dropWhile P xs) = last xs"
  by (induction xs) (auto split: if_splits)

lemma trim_ends: "trim s = [] \<or> (\<not> isWhiteSpace (hd (trim s)) \<and> \<not> isWhiteSpace (last (trim s)))"
proof (cases "trim s = []")
  case True
  then show ?thesis by simp
next
  case False
  let ?u = "dropWhile isWhiteSpace s"
  let ?v = "dropWhile isWhiteSpace (rev ?u)"
  have v: "?v \<noteq> []" using False by (simp add: trim_def)
  have u: "?u \<noteq> []"
  proof
    assume a: "?u = []"
    show False using v unfolding a by simp
  qed
  have "\<not> isWhiteSpace (hd ?v)" using v by (rule hd_dropWhile)
  then have l: "\<not> isWhiteSpace (last (trim s))"
    using v by (simp add: trim_def last_rev)
  have "last ?v = last (rev ?u)" using v by (rule dropWhile_last)
  then have "hd (trim s) = hd ?u" using u v by (simp add: trim_def hd_rev last_rev)
  moreover have "\<not> isWhiteSpace (hd ?u)" using u by (rule hd_dropWhile)
  ultimately show ?thesis using l by simp
qed

lemma trim_Nil [simp]: "trim [] = []"
  by (simp add: trim_def)

lemma trim_idem [simp]: "trim (trim s) = trim s"
proof (cases "trim s = []")
  case True
  then show ?thesis by simp
next
  case False
  with trim_ends [of s]
  have h: "\<not> isWhiteSpace (hd (trim s))" and l: "\<not> isWhiteSpace (last (trim s))" by auto
  have 1: "dropWhile isWhiteSpace (trim s) = trim s"
    using h by (simp add: dropWhile_fixed)
  have 2: "dropWhile isWhiteSpace (rev (trim s)) = rev (trim s)"
    using l False by (simp add: dropWhile_fixed hd_rev)
  show ?thesis
    by (subst trim_def) (simp add: 1 2)
qed

lemma trim_padded:
  assumes "list_all isWhiteSpace a" and "list_all isWhiteSpace b"
  shows "trim (a @ s @ b) = trim s"
proof -
  have "\<And>x. x \<in> set a \<Longrightarrow> isWhiteSpace x"
    using assms(1) by (simp add: list_all_iff)
  then have 1: "dropWhile isWhiteSpace (a @ s @ b) = dropWhile isWhiteSpace (s @ b)"
    by (rule dropWhile_append2)
  have "\<And>x. x \<in> set (rev b) \<Longrightarrow> isWhiteSpace x"
    using assms(2) by (simp add: list_all_iff)
  then have 2: "dropWhile isWhiteSpace (rev b @ xs) = dropWhile isWhiteSpace xs" for xs
    by (rule dropWhile_append2)
  show ?thesis
  proof (cases "list_all isWhiteSpace s")
    case True
    then have "\<forall>x\<in>set (s @ b). isWhiteSpace x" and e: "\<forall>x\<in>set s. isWhiteSpace x"
      using assms(2) by (auto simp: list_all_iff)
    then have "dropWhile isWhiteSpace (s @ b) = []"
      by (simp only: dropWhile_eq_Nil_conv)
    moreover have "dropWhile isWhiteSpace s = []"
      using e by (simp only: dropWhile_eq_Nil_conv)
    ultimately show ?thesis by (simp only: trim_def 1 rev.simps dropWhile.simps)
  next
    case False
    then have "dropWhile isWhiteSpace (s @ b) = dropWhile isWhiteSpace s @ b"
      by (auto simp: list_all_iff dropWhile_append1)
    then show ?thesis by (simp add: trim_def 1 2)
  qed
qed

lemma normalize_idem: "toLowerCase (trim (toLowerCase (trim s))) = toLowerCase (trim s)"
  by (simp add: trim_toLowerCase)

lemma myId_init: "\<not> peer_live w \<Longrightarrow> myId (init u cb w) = nodeId (username u)"
  by (simp add: init_def createPeer_def Let_def)

lemma effects_send_fresh:
  assumes "peer w = Some p" and "p < length (peers w)" and "\<not> connect_throws (peers w ! p)"
  shows "effects (send_fresh m w)
           = effects w @ [PeerConnect p (nodeId (recipientId m)) (length (conns w))]"
  using assms by (simp add: send_fresh_def peer_connect_def Let_def)

lemma effects_connectToPeer:
  assumes "isOnline w" and "peer w = Some p" and "p < length (peers w)"
    and "\<not> destroyed (peers w ! p)" and "\<not> connect_throws (peers w ! p)"
    and "nodeId name \<noteq> myId w" and "open_conn (nodeId name) w = None"
  shows "effects (connectToPeer name w)
           = effects w @ [PeerConnect p (nodeId name) (length (conns w))]"
  using assms by (simp add: connectToPeer_def peer_connect_def peer_live_def Let_def)

text \<open>
  Claim C4 (as stated, at \<open>alice\<close>). The node identifier of a node identifier carries the
  prefix twice: deriving the identifier is not idempotent.
\<close>

theorem nodeId_not_idempotent: "nodeId (nodeId ''alice'') \<noteq> nodeId ''alice''"
  by code_simp

text \<open>
  Claim C4 (amended). The node identifier \<open>ST-\<close> followed by the trimmed, lower-cased
  username does not depend on white space around the username nor on its case;
  the normalisation (trim, then lower case) is idempotent; and \<open>init\<close> (the local id),
  \<open>connectToPeer\<close> and \<open>send\<close> (the target id) derive it in the same way.
\<close>

theorem nodeId_normalization:
  "nodeId ''Alice'' = nodeId '' alice ''
   \<and> (list_all isWhiteSpace a \<and> list_all isWhiteSpace b \<longrightarrow> nodeId (a @ s @ b) = nodeId s)
   \<and> nodeId (toLowerCase s) = nodeId s
   \<and> toLowerCase (trim (toLowerCase (trim s))) = toLowerCase (trim s)
   \<and> (\<not> peer_live w \<longrightarrow> myId (init u cb w) = nodeId (username u))
   \<and> (isOnline w \<and> peer w = Some p \<and> p < length (peers w) \<and> \<not> destroyed (peers w ! p)
        \<and> \<not> connect_throws (peers w ! p) \<and> nodeId name \<noteq> myId w
        \<and> open_conn (nodeId name) w = None \<longrightarrow>
        effects (connectToPeer name w)
          = effects w @ [PeerConnect p (nodeId name) (length (conns w))])
   \<and> (isOnline w \<and> peer w = Some p \<and> p < length (peers w)
        \<and> \<not> connect_throws (peers w ! p) \<and> open_conn (nodeId (recipientId m)) w = None \<longrightarrow>
        effects (send m w)
          = effects w @ [PeerConnect p (nodeId (recipientId m)) (length (conns w))])"
proof -
  have 1: "nodeId ''Alice'' = nodeId '' alice ''"
    by code_simp
  have 2: "nodeId (a @ s @ b) = nodeId s"
    if "list_all isWhiteSpace a" "list_all isWhiteSpace b"
    using that by (simp add: nodeId_def trim_padded)
  have 3: "nodeId (toLowerCase s) = nodeId s"
    by (simp add: nodeId_def trim_toLowerCase)
  have 4: "effects (send m w)
          = effects w @ [PeerConnect p (nodeId (recipientId m)) (length (conns w))]"
    if "isOnline w" "peer w = Some p" "p < length (peers w)"
       "\<not> connect_throws (peers w ! p)" "open_conn (nodeId (recipientId m)) w = None"
    using that by (simp add: send_unfold effects_send_fresh)
  show ?thesis
    using 1 2 3 4 normalize_idem myId_init effects_connectToPeer by blast
qed

theorem nodeId_normalization_witness:
  "nodeId ([CHR 0x09, CHR '' ''] @ ''Alice'' @ '' '') = ''ST-alice''
   \<and> nodeId (toLowerCase ''ALICE'') = nodeId ''ALICE''
   \<and> myId (init alice (AppReady 0) initial) = ''ST-alice''
   \<and> effects (connectToPeer '' BOB'' alice_online)
       = effects alice_online @ [PeerConnect 0 ''ST-bob'' 0]
   \<and> effects (send hello alice_online)
       = effects alice_online @ [PeerConnect 0 ''ST-bob'' 0]"
proof -
  have ws: "list_all isWhiteSpace [CHR 0x09, CHR '' '']" "list_all isWhiteSpace '' ''"
    by code_simp+
  have ids: "nodeId ''Alice'' = ''ST-alice''" "nodeId (username alice) = ''ST-alice''"
    "nodeId '' BOB'' = ''ST-bob''" "nodeId (recipientId hello) = ''ST-bob''"
    by code_simp+
  have st: "\<not> peer_live initial" "isOnline alice_online" "peer alice_online = Some 0"
    "0 < length (peers alice_online)" "\<not> destroyed (peers alice_online ! 0)"
    "\<not> connect_throws (peers alice_online ! 0)" "nodeId '' BOB'' \<noteq> myId alice_online"
    "open_conn (nodeId '' BOB'') alice_online = None"
    "open_conn (nodeId (recipientId hello)) alice_online = None"
    "length (conns alice_online) = 0"
    by code_simp+
  from nodeId_normalization [of "[CHR 0x09, CHR '' '']" "'' ''" "''Alice''" initial alice
         "AppReady 0"] ws st(1) ids(1,2)
  have a: "nodeId ([CHR 0x09, CHR '' ''] @ ''Alice'' @ '' '') = ''ST-alice''"
    "myId (init alice (AppReady 0) initial) = ''ST-alice''"
    by simp_all
  from nodeId_normalization [of "[]" "[]" "''ALICE''"]
  have b: "nodeId (toLowerCase ''ALICE'') = nodeId ''ALICE''"
    by blast
  from nodeId_normalization [of "[]" "[]" "[]" alice_online alice NoopReady 0 "'' BOB''" hello]
    st ids(3,4)
  have c: "effects (connectToPeer '' BOB'' alice_online)
       = effects alice_online @ [PeerConnect 0 ''ST-bob'' 0]"
    "effects (send hello alice_online)
       = effects alice_online @ [PeerConnect 0 ''ST-bob'' 0]"
    by simp_all
  show ?thesis using a b c by simp
qed

text \<open>
  The data handler derives the key of the re-keyed entry by lower-casing only. For a
  username without white space at its ends that is the node identifier.
\<close>

lemma rekey_of_trimmed: "trim name = name \<Longrightarrow> ''ST-'' @ toLowerCase name = nodeId name"
  by (simp add: nodeId_def)

subsection \<open>The connection registry\<close>

text \<open>
  Claim C7 (what the code does at the failing input). After the identity exchange the
  connection sits in the registry under its transport id and under the id derived from
  the exchanged username. The cleanup on \<open>close\<close> and on \<open>error\<close> deletes the entry
  under \<open>conn.peer\<close> only: the re-keyed entry stays, after \<open>close\<close> pointing to a closed
  connection, after \<open>error\<close> pointing to the connection with \<open>open\<close> still set, so
  that \<open>getActiveConnections\<close> goes on listing it.
\<close>

theorem rekeyed_entry_survives_close:
  "connections (run initial rekeyed) = [(''ST-mallory'', 0), (''ST-bob'', 0)]
   \<and> connections (run initial (rekeyed @ [ConnClosed 0])) = [(''ST-bob'', 0)]
   \<and> conn_open (conns (run initial (rekeyed @ [ConnClosed 0])) ! 0) = False
   \<and> connections (run initial (rekeyed @ [ConnError 0])) = [(''ST-bob'', 0)]
   \<and> conn_open (conns (run initial (rekeyed @ [ConnError 0])) ! 0) = True
   \<and> getActiveConnections (run initial (rekeyed @ [ConnError 0])) = [''ST-bob'']"
  by code_simp

subsection \<open>An envelope for an unreachable peer\<close>

lemma sends_append: "sends_of m (xs @ ys) = sends_of m xs + sends_of m ys"
  by (simp add: sends_of_def)

lemma sends_errors [simp]: "sends_of m (map (\<lambda>h. ErrorTo h ty msg) hs) = 0"
  by (simp add: sends_of_def o_def)

lemma sends_messages [simp]: "sends_of m (map (\<lambda>h. MessageTo h d) hs) = 0"
  by (simp add: sends_of_def o_def)

lemma sends_one: "sends_of m [e] = (if is_send_of m e then 1 else 0)"
  by (simp add: sends_of_def)

lemma map_nth_update [simp]: "(map f xs)[i := f (xs ! i)] = map f xs"
  by (simp add: map_update [symmetric])

lemma payloads_updates [simp]:
  "payloads (w\<lparr>peer := a\<rparr>) = payloads w"
  "payloads (w\<lparr>connections := b\<rparr>) = payloads w"
  "payloads (w\<lparr>handlers := c\<rparr>) = payloads w"
  "payloads (w\<lparr>errorHandlers := d\<rparr>) = payloads w"
  "payloads (w\<lparr>myId := e\<rparr>) = payloads w"
  "payloads (w\<lparr>myUser := f\<rparr>) = payloads w"
  "payloads (w\<lparr>isOnline := g\<rparr>) = payloads w"
  "payloads (w\<lparr>isDestroyed := h\<rparr>) = payloads w"
  "payloads (w\<lparr>peers := i\<rparr>) = payloads w"
  "payloads (w\<lparr>effects := k\<rparr>) = payloads w"
  "payloads (w\<lparr>reconnectDelay := l\<rparr>) = payloads w"
  "payloads (w\<lparr>reconnectTimeout := n\<rparr>) = payloads w"
  "payloads (w\<lparr>timers := q\<rparr>) = payloads w"
  "payloads (w\<lparr>next_timer := r\<rparr>) = payloads w"
  by (simp_all add: payloads_def)

lemma payloads_flags [simp]:
  "payloads (w\<lparr>conns := (conns w)[c := (conns w ! c)\<lparr>wired := b1\<rparr>]\<rparr>) = payloads w"
  "payloads (w\<lparr>conns := (conns w)[c := (conns w ! c)\<lparr>conn_open := b2\<rparr>]\<rparr>) = payloads w"
  "payloads (w\<lparr>conns := (conns w)[c := (conns w ! c)\<lparr>send_throws := b3\<rparr>]\<rparr>) = payloads w"
  by (simp_all add: payloads_def map_update)

lemma payloads_emit [simp]: "payloads (emit es w) = payloads w"
  by (simp add: emit_def)

lemma payloads_report [simp]: "payloads (report ty msg w) = payloads w"
  by (simp add: report_def)

lemma payloads_deliver [simp]: "payloads (deliver d w) = payloads w"
  by (simp add: deliver_def)

lemma payloads_evict [simp]: "payloads (evict k w) = payloads w"
  by (simp add: evict_def)

lemma payloads_init [simp]: "payloads (init u cb w) = payloads w"
  by (simp add: init_def createPeer_def Let_def)

lemma payloads_handleReconnect [simp]: "payloads (handleReconnect w) = payloads w"
  by (simp add: handleReconnect_def Let_def)

lemma payloads_peer_reconnect [simp]: "payloads (peer_reconnect w) = payloads w"
  by (simp add: peer_reconnect_def split: option.splits)

lemma payloads_reconnect_attempt [simp]: "payloads (reconnect_attempt w) = payloads w"
  by (simp add: reconnect_attempt_def Let_def split: option.splits)

lemma payloads_setupConnection [simp]: "payloads (setupConnection c w) = payloads w"
  by (simp add: setupConnection_def split: option.splits)

lemma payloads_send_payloads [simp]: "payloads (send_payloads c ds w) = payloads w"
  by (induction ds arbitrary: w) auto

lemma payloads_on_conn_open [simp]: "payloads (on_conn_open c w) = payloads w"
  by (simp add: on_conn_open_def Let_def split: option.splits)

lemma payloads_on_conn_data [simp]: "payloads (on_conn_data c d w) = payloads w"
  by (simp add: on_conn_data_def split: ProtocolMessage.splits)

lemma payloads_on_conn_close [simp]: "payloads (on_conn_close c w) = payloads w"
  by (simp add: on_conn_close_def cleanup_def Let_def)

lemma payloads_on_conn_error [simp]: "payloads (on_conn_error c w) = payloads w"
  by (simp add: on_conn_error_def cleanup_def)

lemma payloads_on_peer_open [simp]: "payloads (on_peer_open p ident w) = payloads w"
  by (simp add: on_peer_open_def)

lemma payloads_on_peer_error [simp]: "payloads (on_peer_error ty msg w) = payloads w"
  by (simp add: on_peer_error_def)

lemma payloads_on_peer_disconnected [simp]: "payloads (on_peer_disconnected p w) = payloads w"
  by (simp add: on_peer_disconnected_def)

lemma payloads_on_peer_close [simp]: "payloads (on_peer_close p w) = payloads w"
  by (simp add: on_peer_close_def Let_def)

lemma payloads_close_all [simp]: "payloads (close_all cs w) = payloads w"
  by (induction cs arbitrary: w) auto

lemma payloads_destroy [simp]: "payloads (destroy w) = payloads w"
  by (simp add: destroy_def Let_def peer_destroy_def clear_reconnect_timeout_def
        split: option.splits)

lemma payloads_new_conn: "payloads (w\<lparr>conns := conns w @ [new_conn t]\<rparr>) = payloads w @ [[]]"
  by (simp add: payloads_def new_conn_def)

lemma payloads_on_peer_connection [simp]:
  "payloads (on_peer_connection r w) = payloads w @ [[]]"
  by (simp add: on_peer_connection_def payloads_new_conn)

lemma payloads_peer_connect:
  "peer_connect t w = Some (c, w') \<Longrightarrow> payloads w' = payloads w @ [[]] \<and> c = length (conns w)"
  by (auto dest!: peer_connect_SomeD simp: payloads_new_conn)

lemma payloads_add_open_payload:
  "c < length (conns w) \<Longrightarrow>
     payloads (add_open_payload c d w) = (payloads w)[c := payloads w ! c @ [d]]"
  by (simp add: add_open_payload_def payloads_def map_update)

lemma length_payloads [simp]: "length (payloads w) = length (conns w)"
  by (simp add: payloads_def)

lemma length_conns_setupConnection [simp]:
  "length (conns (setupConnection c w)) = length (conns w)"
  by (simp add: setupConnection_def split: option.splits)

lemma payloads_send_fresh:
  "payloads (send_fresh m w) = payloads w \<or> payloads (send_fresh m w) = payloads w @ [[CHAT m]]"
proof (cases "peer_connect (nodeId (recipientId m)) w")
  case None
  then show ?thesis by (simp add: send_fresh_def)
next
  case (Some a)
  obtain c w' where a: "a = (c, w')" by (cases a)
  with Some have pc: "peer_connect (nodeId (recipientId m)) w = Some (c, w')" by simp
  from payloads_peer_connect [OF pc]
  have p: "payloads w' = payloads w @ [[]]" and c: "c = length (conns w)" by simp_all
  have len: "c < length (conns (setupConnection c w'))"
    using peer_connect_SomeD [OF pc] by auto
  have "payloads (send_fresh m w) = (payloads w @ [[]])[c := (payloads w @ [[]]) ! c @ [CHAT m]]"
    using pc p by (simp add: send_fresh_def payloads_add_open_payload [OF len])
  then show ?thesis using c by (simp add: nth_append list_update_append)
qed


lemma held_grows: "held_only_by m c ps \<Longrightarrow> grows m ps ps' \<Longrightarrow> held_only_by m c ps'"
  by (auto simp: held_only_by_def grows_def nth_append less_Suc_eq)

lemma payloads_send:
  "payloads (send m w) = payloads w \<or> payloads (send m w) = payloads w @ [[CHAT m]]"
  using payloads_send_fresh [of m w]
    payloads_send_fresh [of m "report ''send-fail'' ''Transmission failed. Retrying...''
                                 (evict (nodeId (recipientId m)) w)"]
  by (auto simp: send_unfold split: option.splits)

lemma payloads_connectToPeer:
  "payloads (connectToPeer n w) = payloads w \<or> payloads (connectToPeer n w) = payloads w @ [[]]"
  by (auto simp: connectToPeer_def Let_def split: option.splits dest!: payloads_peer_connect)

lemma grows_step: "e \<noteq> Send m \<Longrightarrow> grows m (payloads w) (payloads (step w e))"
proof (cases e)
  case (Send m')
  assume "e \<noteq> Send m"
  with Send have "m' \<noteq> m" by simp
  with Send payloads_send [of m' w] show ?thesis by (auto simp: grows_def)
next
  case (ConnectToPeer n)
  with payloads_connectToPeer [of n w] show ?thesis by (auto simp: grows_def)
qed (simp_all add: grows_def onMessage_def offMessage_def onError_def offError_def)

lemma sends_emit: "sends_of m (effects (emit es w)) = sends_of m (effects w) + sends_of m es"
  by (simp add: sends_append)

lemma sends_report [simp]: "sends_of m (effects (report ty msg w)) = sends_of m (effects w)"
  by (simp add: report_def sends_append)

lemma sends_deliver [simp]: "sends_of m (effects (deliver d w)) = sends_of m (effects w)"
  by (simp add: deliver_def sends_append)

lemma sends_init [simp]: "sends_of m (effects (init u cb w)) = sends_of m (effects w)"
  by (simp add: init_def createPeer_def Let_def sends_append sends_one)

lemma sends_handleReconnect [simp]:
  "sends_of m (effects (handleReconnect w)) = sends_of m (effects w)"
  by (simp add: handleReconnect_def Let_def sends_append sends_one)

lemma sends_peer_reconnect [simp]:
  "sends_of m (effects (peer_reconnect w)) = sends_of m (effects w)"
  by (simp add: peer_reconnect_def sends_append sends_one split: option.splits)

lemma sends_reconnect_attempt [simp]:
  "sends_of m (effects (reconnect_attempt w)) = sends_of m (effects w)"
  by (simp add: reconnect_attempt_def Let_def sends_append sends_one split: option.splits)

lemma sends_on_conn_data [simp]:
  "sends_of m (effects (on_conn_data c d w)) = sends_of m (effects w)"
  by (simp add: on_conn_data_def split: ProtocolMessage.splits)

lemma sends_on_peer_open [simp]:
  "sends_of m (effects (on_peer_open p ident w)) = sends_of m (effects w)"
  by (simp add: on_peer_open_def sends_append sends_one)

lemma sends_on_peer_error [simp]:
  "sends_of m (effects (on_peer_error ty msg w)) = sends_of m (effects w)"
  by (simp add: on_peer_error_def)

lemma sends_on_peer_disconnected [simp]:
  "sends_of m (effects (on_peer_disconnected p w)) = sends_of m (effects w)"
  by (simp add: on_peer_disconnected_def)

lemma sends_on_peer_close [simp]:
  "sends_of m (effects (on_peer_close p w)) = sends_of m (effects w)"
  by (simp add: on_peer_close_def Let_def)

lemma sends_close_all [simp]: "sends_of m (effects (close_all cs w)) = sends_of m (effects w)"
  by (induction cs arbitrary: w) (auto simp: sends_append sends_one)

lemma sends_destroy [simp]: "sends_of m (effects (destroy w)) = sends_of m (effects w)"
  by (simp add: destroy_def Let_def peer_destroy_def clear_reconnect_timeout_def sends_append
        sends_one split: option.splits)

lemma sends_peer_connect:
  "peer_connect t w = Some (c, w') \<Longrightarrow> sends_of m (effects w') = sends_of m (effects w)"
  by (auto dest!: peer_connect_SomeD simp: sends_append sends_one)

lemma sends_send_fresh [simp]: "sends_of m (effects (send_fresh m' w)) = sends_of m (effects w)"
  by (auto simp: send_fresh_def sends_peer_connect split: option.splits)

lemma sends_connectToPeer [simp]:
  "sends_of m (effects (connectToPeer n w)) = sends_of m (effects w)"
  by (auto simp: connectToPeer_def Let_def sends_peer_connect split: option.splits)

lemma sends_send: "m' \<noteq> m \<Longrightarrow> sends_of m (effects (send m' w)) = sends_of m (effects w)"
  by (simp add: send_unfold sends_append sends_one split: option.splits)

lemma sends_send_payloads:
  "CHAT m \<notin> set ds \<Longrightarrow> sends_of m (effects (send_payloads c ds w)) = sends_of m (effects w)"
  by (induction ds arbitrary: w) (auto simp: sends_append sends_one)

lemma sends_on_conn_open:
  assumes "c < length (conns w)" and "CHAT m \<notin> set (open_payloads (conns w ! c))"
  shows "sends_of m (effects (on_conn_open c w)) = sends_of m (effects w)"
  using assms
  by (simp add: on_conn_open_def Let_def sends_send_payloads sends_append sends_one
        split: option.splits)

lemma held_elsewhere:
  "held_only_by m c (payloads w) \<Longrightarrow> c' < length (conns w) \<Longrightarrow> c' \<noteq> c \<Longrightarrow>
     CHAT m \<notin> set (open_payloads (conns w ! c'))"
  by (auto simp: held_only_by_def payloads_def)

lemma sends_step:
  assumes "held_only_by m c (payloads w)" and "e \<noteq> Send m" and "e \<noteq> ConnOpen c"
  shows "sends_of m (effects (step w e)) = sends_of m (effects w)"
proof (cases e)
  case (Send m')
  with assms(2) show ?thesis by (simp add: sends_send)
next
  case (ConnOpen c')
  with assms(3) have "c' \<noteq> c" by simp
  with ConnOpen held_elsewhere [OF assms(1), of c'] show ?thesis
    by (simp add: sends_on_conn_open)
qed (simp_all add: onMessage_def offMessage_def onError_def offError_def)

lemma never_sent_run:
  assumes "held_only_by m c (payloads w)" and "Send m \<notin> set evs" and "ConnOpen c \<notin> set evs"
  shows "sends_of m (effects (run w evs)) = sends_of m (effects w)
         \<and> held_only_by m c (payloads (run w evs))"
  using assms
proof (induction evs arbitrary: w)
  case Nil
  then show ?case by simp
next
  case (Cons e evs)
  from Cons.prems have e: "e \<noteq> Send m" "e \<noteq> ConnOpen c" by auto
  have h: "held_only_by m c (payloads (step w e))"
    using Cons.prems(1) grows_step [OF e(1)] by (rule held_grows)
  have s: "sends_of m (effects (step w e)) = sends_of m (effects w)"
    using Cons.prems(1) e by (rule sends_step)
  from Cons.IH [OF h] Cons.prems s show ?case by simp
qed


lemma payloads_send_fresh_ok:
  assumes "peer w = Some p" and "p < length (peers w)" and "\<not> connect_throws (peers w ! p)"
  shows "payloads (send_fresh m w) = payloads w @ [[CHAT m]]"
proof -
  let ?t = "nodeId (recipientId m)"
  let ?w' = "emit [PeerConnect p ?t (length (conns w))] (w\<lparr>conns := conns w @ [new_conn ?t]\<rparr>)"
  have pc: "peer_connect ?t w = Some (length (conns w), ?w')"
    using assms by (simp add: peer_connect_def Let_def)
  have len: "length (conns w) < length (conns (setupConnection (length (conns w)) ?w'))"
    by simp
  have "payloads (send_fresh m w)
          = (payloads w @ [[]])[length (conns w) := (payloads w @ [[]]) ! length (conns w) @ [CHAT m]]"
    using pc by (simp add: send_fresh_def payloads_add_open_payload [OF len] payloads_new_conn)
  then show ?thesis by (simp add: nth_append list_update_append)
qed

lemma effects_peer_unavailable:
  "effects (on_peer_error ''peer-unavailable'' msg w)
     = effects w @ map (\<lambda>h. ErrorTo h ''peer-unavailable''
                          (''Node '' @ removeFirst ''ST-'' msg
                             @ '' is currently offline or unreachable.'')) (errorHandlers w)"
  by (simp add: on_peer_error_def effects_report)

text \<open>
  Claim C9. The node is online, the registry has no open connection for the recipient,
  and \<open>peer.connect\<close> returns a connection that never opens. Then \<open>send\<close> registers
  nothing in the registry, reports nothing and transmits nothing: the envelope is held
  only by the \<open>open\<close> closure of that one connection. Whatever happens afterwards (the
  peer becoming reachable over other connections included), as long as that connection
  does not open and the application does not send the envelope again, the envelope is
  never transmitted. When the transport signals \<open>peer-unavailable\<close>, every error
  handler receives the event with the message that the node is offline or unreachable.
\<close>

theorem offline_recipient_not_queued:
  assumes "isOnline w"
    and "open_conn (nodeId (recipientId m)) w = None"
    and "peer w = Some p" and "p < length (peers w)" and "\<not> connect_throws (peers w ! p)"
    and "held_only_by m (length (conns w)) (payloads w)"
    and "ConnOpen (length (conns w)) \<notin> set evs"
    and "Send m \<notin> set evs"
  shows "connections (send m w) = connections w
     \<and> effects (send m w)
         = effects w @ [PeerConnect p (nodeId (recipientId m)) (length (conns w))]
     \<and> payloads (send m w) = payloads w @ [[CHAT m]]
     \<and> sends_of m (effects (run (send m w) evs)) = sends_of m (effects w)
     \<and> (\<forall>p' < length (peers (run (send m w) evs)).
          effects (step (run (send m w) evs) (PeerError p' ''peer-unavailable'' msg))
            = effects (run (send m w) evs)
              @ map (\<lambda>h. ErrorTo h ''peer-unavailable''
                           (''Node '' @ removeFirst ''ST-'' msg
                              @ '' is currently offline or unreachable.''))
                  (errorHandlers (run (send m w) evs)))"
proof -
  have s: "send m w = send_fresh m w"
    using assms(1,2) by (simp add: send_unfold)
  have 1: "connections (send m w) = connections w"
    by (simp add: s)
  have 2: "effects (send m w)
         = effects w @ [PeerConnect p (nodeId (recipientId m)) (length (conns w))]"
    using assms(3-5) by (simp add: s effects_send_fresh)
  have 3: "payloads (send m w) = payloads w @ [[CHAT m]]"
    using assms(3-5) by (simp add: s payloads_send_fresh_ok)
  have h: "held_only_by m (length (conns w)) (payloads (send m w))"
    using assms(6) by (auto simp: 3 held_only_by_def nth_append)
  from never_sent_run [OF h assms(8) assms(7)]
  have 4: "sends_of m (effects (run (send m w) evs)) = sends_of m (effects w)"
    by (simp add: 2 sends_append sends_one)
  show ?thesis using 1 2 3 4 by (simp add: effects_peer_unavailable)
qed

theorem offline_recipient_not_queued_witness:
  "sends_of hello (effects (run (send hello alice_online) bob_returns)) = 0
   \<and> payloads (send hello alice_online) = [[CHAT hello]]
   \<and> effects (step (send hello alice_online) (PeerError 0 ''peer-unavailable'' ''ST-bob''))
       = effects (send hello alice_online)
         @ [ErrorTo 7 ''peer-unavailable'' ''Node bob is currently offline or unreachable.'']
   \<and> connections (run (send hello alice_online) bob_returns) = [(''ST-bob'', 1)]"
proof -
  have st: "isOnline alice_online" "open_conn (nodeId (recipientId hello)) alice_online = None"
    "peer alice_online = Some 0" "0 < length (peers alice_online)"
    "\<not> connect_throws (peers alice_online ! 0)"
    "held_only_by hello (length (conns alice_online)) (payloads alice_online)"
    "ConnOpen (length (conns alice_online)) \<notin> set bob_returns"
    "Send hello \<notin> set bob_returns"
    by code_simp+
  have v: "sends_of hello (effects alice_online) = 0" "payloads alice_online = []"
    "connections (run (send hello alice_online) bob_returns) = [(''ST-bob'', 1)]"
    by code_simp+
  have e: "0 < length (peers (run (send hello alice_online) []))"
    "errorHandlers (run (send hello alice_online) []) = [7]"
    "removeFirst ''ST-'' ''ST-bob'' = ''bob''"
    by code_simp+
  have n: "ConnOpen (length (conns alice_online)) \<notin> set []" "Send hello \<notin> set []"
    by simp_all
  from offline_recipient_not_queued [OF st, of "''x''"] v
  have a: "sends_of hello (effects (run (send hello alice_online) bob_returns)) = 0"
    "payloads (send hello alice_online) = [[CHAT hello]]"
    by simp_all
  from offline_recipient_not_queued [OF st(1-6) n, of "''ST-bob''"]
  have "\<forall>p' < length (peers (run (send hello alice_online) [])).
          effects (step (run (send hello alice_online) [])
                     (PeerError p' ''peer-unavailable'' ''ST-bob''))
            = effects (run (send hello alice_online) [])
              @ map (\<lambda>h. ErrorTo h ''peer-unavailable''
                           (''Node '' @ removeFirst ''ST-'' ''ST-bob''
                              @ '' is currently offline or unreachable.''))
                  (errorHandlers (run (send hello alice_online) []))"
    by blast
  then have "effects (step (run (send hello alice_online) [])
                     (PeerError 0 ''peer-unavailable'' ''ST-bob''))
            = effects (run (send hello alice_online) [])
              @ map (\<lambda>h. ErrorTo h ''peer-unavailable''
                           (''Node '' @ removeFirst ''ST-'' ''ST-bob''
                              @ '' is currently offline or unreachable.''))
                  (errorHandlers (run (send hello alice_online) []))"
    using e(1) by blast
  then have b: "effects (step (send hello alice_online) (PeerError 0 ''peer-unavailable'' ''ST-bob''))
       = effects (send hello alice_online)
         @ [ErrorTo 7 ''peer-unavailable'' ''Node bob is currently offline or unreachable.'']"
    using e(2,3) by (simp del: step.simps)
  show ?thesis using a b v(3) by simp
qed

section \<open>Properties of the encodings and of the envelope\<close>

subsection \<open>Base64\<close>

lemma of_char_b64_char:
  "v < 64 \<Longrightarrow> (of_char (b64_char v) :: nat) =
     (if v < 26 then v + 65 else if v < 52 then v + 71 else if v < 62 then v - 4
      else if v = 62 then 43 else 47)"
  by (auto simp: b64_char_def)

lemma b64_value_char: "v < 64 \<Longrightarrow> b64_value (b64_char v) = Some v"
  by (auto simp: b64_value_def Let_def of_char_b64_char)

lemma b64_char_not_pad: "v < 64 \<Longrightarrow> b64_char v \<noteq> CHR ''=''"
proof
  assume "v < 64" and "b64_char v = CHR ''=''"
  then have "(of_char (b64_char v) :: nat) = 61" by simp
  with \<open>v < 64\<close> show False by (auto simp: of_char_b64_char split: if_splits)
qed

lemma b64_char_not_ws: "v < 64 \<Longrightarrow> \<not> isAsciiWhitespace (b64_char v)"
  by (auto simp: isAsciiWhitespace_def of_char_b64_char)

lemma sextets_lt: "\<forall>b\<in>set bs. b < 256 \<Longrightarrow> \<forall>v\<in>set (b64_sextets bs). v < 64"
  by (induction bs rule: b64_sextets.induct) (auto simp: less_mult_imp_div_less)

lemma octets_sextets: "\<forall>b\<in>set bs. b < 256 \<Longrightarrow> b64_octets (b64_sextets bs) = bs"
  by (induction bs rule: b64_sextets.induct) (auto; presburger)+

lemma length_sextets:
  "length (b64_sextets bs) = 4 * (length bs div 3) + (if length bs mod 3 = 0 then 0 else length bs mod 3 + 1)"
  by (induction bs rule: b64_sextets.induct) auto


lemma those_values: "\<forall>v\<in>set vs. v < 64 \<Longrightarrow> those (map b64_value (map b64_char vs)) = Some vs"
  by (induction vs) (auto simp: b64_value_char)

lemma strip_padding_btoa:
  assumes "\<forall>v\<in>set vs. v < 64" and "p \<le> 2" and "(length vs + p) mod 4 = 0"
    and "p > 0 \<longrightarrow> vs \<noteq> []"
  shows "strip_padding (map b64_char vs @ replicate p (CHR ''='')) = map b64_char vs"
proof -
  let ?b = "map b64_char vs"
  have np: "CHR ''='' \<notin> set ?b"
    using assms(1) b64_char_not_pad [symmetric] by (auto simp: image_iff)
  consider "p = 0" | "p = 1" | "p = 2" using assms(2) by linarith
  then show ?thesis
  proof cases
    case 1
    show ?thesis
    proof (cases vs rule: rev_cases)
      case Nil
      then show ?thesis using 1 by (simp add: strip_padding_def)
    next
      case (snoc ys y)
      then have "b64_char y \<noteq> CHR ''=''" using np by auto
      then show ?thesis using 1 snoc assms(3) by (simp add: strip_padding_def)
    qed
  next
    case 2
    with assms(4) obtain ys y where vs: "vs = ys @ [y]" by (cases vs rule: rev_cases) auto
    then have "b64_char y \<noteq> CHR ''=''" using np by auto
    then show ?thesis using 2 vs assms(3) by (simp add: strip_padding_def)
  next
    case 3
    then show ?thesis using assms(3) by (simp add: strip_padding_def numeral_2_eq_2)
  qed
qed

lemma length_mod: "(length (b64_sextets bs) + (3 - length bs mod 3) mod 3) mod 4 = 0"
  by (simp add: length_sextets)

lemma sextets_nonempty: "bs \<noteq> [] \<Longrightarrow> b64_sextets bs \<noteq> []"
  by (cases bs rule: b64_sextets.cases) auto

lemma length_sextets_mod: "length (b64_sextets bs) mod 4 \<noteq> 1"
  by (simp add: length_sextets)

lemma atob_btoa: "atob (btoa s) = Some s"
proof -
  let ?bs = "map of_char s :: nat list"
  let ?vs = "b64_sextets ?bs"
  let ?p = "(3 - length s mod 3) mod 3"
  have b: "\<forall>b\<in>set ?bs. b < 256" by auto
  then have v: "\<forall>v\<in>set ?vs. v < 64" by (rule sextets_lt)
  have ws: "filter (\<lambda>c. \<not> isAsciiWhitespace c) (btoa s) = btoa s"
    using v by (auto simp: btoa_def filter_id_conv b64_char_not_ws)
       (simp add: isAsciiWhitespace_def)
  have "?p > 0 \<longrightarrow> ?vs \<noteq> []"
    by (cases s) (auto simp: sextets_nonempty)
  then have sp: "strip_padding (btoa s) = map b64_char ?vs"
    unfolding btoa_def using length_mod [of ?bs]
    by (intro strip_padding_btoa v) auto
  have "map char_of (b64_octets ?vs) = s"
    using octets_sextets [OF b] by (simp add: comp_def)
  then show ?thesis
    using length_sextets_mod [of ?bs] those_values [OF v]
    by (simp add: atob_def ws sp)
qed


subsection \<open>UTF-8 and UTF-16\<close>

lemma mod_lead: "(r::nat) < n \<Longrightarrow> (n * k + r) mod n = r"
  by simp

lemma div4096: "(cp::nat) div 4096 = cp div 64 div 64"
  by (simp add: div_mult2_eq)

lemma div262144: "(cp::nat) div 262144 = cp div 64 div 64 div 64"
  by (simp add: div_mult2_eq)

lemma lead_1: "b \<le> 0x7F \<Longrightarrow> utf8_decode acc 0 lo hi (b # bs) = b # utf8_decode 0 0 0x80 0xBF bs"
  by simp

lemma lead_2:
  "2 \<le> q \<Longrightarrow> q \<le> 31 \<Longrightarrow>
     utf8_decode acc 0 lo hi ((192 + q) # bs) = utf8_decode q 1 0x80 0xBF bs"
  using mod_lead [of q 32 6] by simp

lemma lead_3:
  "q \<le> 15 \<Longrightarrow>
     utf8_decode acc 0 lo hi ((224 + q) # bs)
       = utf8_decode q 2 (if q = 0 then 0xA0 else 0x80) (if q = 13 then 0x9F else 0xBF) bs"
  using mod_lead [of q 16 14] by simp

lemma lead_4:
  "q \<le> 4 \<Longrightarrow>
     utf8_decode acc 0 lo hi ((240 + q) # bs)
       = utf8_decode q 3 (if q = 0 then 0x90 else 0x80) (if q = 4 then 0x8F else 0xBF) bs"
  using mod_lead [of q 8 30] by simp

lemma cont_last:
  "r < 64 \<Longrightarrow> lo \<le> 128 + r \<Longrightarrow> 128 + r \<le> hi \<Longrightarrow>
     utf8_decode acc (Suc 0) lo hi ((128 + r) # bs) = (acc * 64 + r) # utf8_decode 0 0 0x80 0xBF bs"
  using mod_lead [of r 64 2] by simp

lemma cont_more:
  "r < 64 \<Longrightarrow> lo \<le> 128 + r \<Longrightarrow> 128 + r \<le> hi \<Longrightarrow> 1 < needed \<Longrightarrow>
     utf8_decode acc needed lo hi ((128 + r) # bs)
       = utf8_decode (acc * 64 + r) (needed - 1) 0x80 0xBF bs"
  using mod_lead [of r 64 2] by simp

declare utf8_decode.simps [simp del]

lemma decode_1:
  assumes "cp < 0x80"
  shows "utf8_decode 0 0 0x80 0xBF (utf8_bytes cp @ rest) = cp # utf8_decode 0 0 0x80 0xBF rest"
  using assms by (simp add: utf8_bytes_def lead_1)

lemma decode_2:
  assumes "0x80 \<le> cp" and "cp < 0x800"
  shows "utf8_decode 0 0 0x80 0xBF (utf8_bytes cp @ rest) = cp # utf8_decode 0 0 0x80 0xBF rest"
proof -
  define q where "q = cp div 64"
  define r where "r = cp mod 64"
  have cp: "q * 64 + r = cp" and r: "r < 64" by (simp_all add: q_def r_def)
  have q: "2 \<le> q" "q \<le> 31" using assms cp r by linarith+
  have ub: "utf8_bytes cp = [192 + q, 128 + r]"
    using assms by (simp add: utf8_bytes_def q_def r_def)
  have "utf8_decode 0 0 0x80 0xBF ((192 + q) # (128 + r) # rest)
          = (q * 64 + r) # utf8_decode 0 0 0x80 0xBF rest"
    using q r by (simp add: lead_2 cont_last)
  then show ?thesis by (simp add: ub cp)
qed

lemma decode_3:
  assumes "0x800 \<le> cp" and "cp < 0x10000" and "\<not> isSurrogate cp"
  shows "utf8_decode 0 0 0x80 0xBF (utf8_bytes cp @ rest) = cp # utf8_decode 0 0 0x80 0xBF rest"
proof -
  define q1 where "q1 = cp div 64"
  define r1 where "r1 = cp mod 64"
  define q2 where "q2 = q1 div 64"
  define r2 where "r2 = q1 mod 64"
  have cp: "q1 * 64 + r1 = cp" and r1: "r1 < 64" by (simp_all add: q1_def r1_def)
  have q1: "q2 * 64 + r2 = q1" and r2: "r2 < 64" by (simp_all add: q2_def r2_def)
  have q2: "q2 \<le> 15" using assms cp r1 q1 r2 by linarith
  have ns: "cp < 0xD800 \<or> 0xDFFF < cp" using assms(3) by (auto simp: isSurrogate_def)
  have lo: "q2 = 0 \<Longrightarrow> 32 \<le> r2" using assms cp r1 q1 r2 by linarith
  have hi: "q2 = 13 \<Longrightarrow> r2 \<le> 31" using ns cp r1 q1 r2 by linarith
  have ub: "utf8_bytes cp = [224 + q2, 128 + r2, 128 + r1]"
    using assms by (simp add: utf8_bytes_def div4096 q1_def r1_def q2_def r2_def)
  have "utf8_decode 0 0 0x80 0xBF ((224 + q2) # (128 + r2) # (128 + r1) # rest)
          = ((q2 * 64 + r2) * 64 + r1) # utf8_decode 0 0 0x80 0xBF rest"
    using q2 r1 r2 lo hi by (simp add: lead_3 cont_more cont_last)
  then show ?thesis by (simp add: ub q1 cp)
qed

lemma decode_4:
  assumes "0x10000 \<le> cp" and "cp < 0x110000"
  shows "utf8_decode 0 0 0x80 0xBF (utf8_bytes cp @ rest) = cp # utf8_decode 0 0 0x80 0xBF rest"
proof -
  define q1 where "q1 = cp div 64"
  define r1 where "r1 = cp mod 64"
  define q2 where "q2 = q1 div 64"
  define r2 where "r2 = q1 mod 64"
  define q3 where "q3 = q2 div 64"
  define r3 where "r3 = q2 mod 64"
  have cp: "q1 * 64 + r1 = cp" and r1: "r1 < 64" by (simp_all add: q1_def r1_def)
  have q1: "q2 * 64 + r2 = q1" and r2: "r2 < 64" by (simp_all add: q2_def r2_def)
  have q2: "q3 * 64 + r3 = q2" and r3: "r3 < 64" by (simp_all add: q3_def r3_def)
  have q3: "q3 \<le> 4" using assms cp r1 q1 r2 q2 r3 by linarith
  have lo: "q3 = 0 \<Longrightarrow> 16 \<le> r3" using assms cp r1 q1 r2 q2 r3 by linarith
  have hi: "q3 = 4 \<Longrightarrow> r3 \<le> 15" using assms cp r1 q1 r2 q2 r3 by linarith
  have ub: "utf8_bytes cp = [240 + q3, 128 + r3, 128 + r2, 128 + r1]"
    using assms
    by (simp add: utf8_bytes_def div4096 div262144 q1_def r1_def q2_def r2_def q3_def r3_def)
  have "utf8_decode 0 0 0x80 0xBF ((240 + q3) # (128 + r3) # (128 + r2) # (128 + r1) # rest)
          = (((q3 * 64 + r3) * 64 + r2) * 64 + r1) # utf8_decode 0 0 0x80 0xBF rest"
    using q3 r1 r2 r3 lo hi by (simp add: lead_4 cont_more cont_last)
  then show ?thesis by (simp add: ub q2 q1 cp)
qed

lemma decode_one:
  assumes "is_scalar cp"
  shows "utf8_decode 0 0 0x80 0xBF (utf8_bytes cp @ rest) = cp # utf8_decode 0 0 0x80 0xBF rest"
proof -
  consider "cp < 0x80" | "0x80 \<le> cp" "cp < 0x800" | "0x800 \<le> cp" "cp < 0x10000"
    | "0x10000 \<le> cp" "cp < 0x110000"
    using assms by (auto simp: is_scalar_def) linarith
  then show ?thesis
    using assms decode_1 decode_2 decode_3 decode_4 by cases (auto simp: is_scalar_def)
qed

lemma decode_all:
  "\<forall>cp\<in>set cps. is_scalar cp \<Longrightarrow>
     utf8_decode 0 0 0x80 0xBF (concat (map utf8_bytes cps)) = cps"
  by (induction cps) (simp_all add: decode_one utf8_decode.simps)


lemma pair_scalar:
  assumes "isHigh c" and "isLow d"
  shows "is_scalar (0x10000 + (c - 0xD800) * 1024 + (d - 0xDC00))"
proof -
  define h where "h = c - 0xD800"
  define l where "l = d - 0xDC00"
  have "h \<le> 1023" "l \<le> 1023"
    using assms by (auto simp: h_def l_def isHigh_def isLow_def)
  then have "65536 + h * 1024 + l < 1114112" "57343 < 65536 + h * 1024 + l"
    by linarith+
  then show ?thesis
    by (simp add: is_scalar_def isSurrogate_def h_def l_def)
qed

lemma single_scalar: "u < 65536 \<Longrightarrow> is_scalar (if isSurrogate u then 0xFFFD else u)"
  by (simp add: is_scalar_def isSurrogate_def)

lemma scalar_values_scalar:
  "\<forall>u\<in>set us. u < 65536 \<Longrightarrow> \<forall>cp\<in>set (scalar_values us). is_scalar cp"
proof (induction us rule: scalar_values.induct)
  case (1 c d rest)
  show ?case
  proof (cases "isHigh c \<and> isLow d")
    case True
    with 1 show ?thesis by (simp add: pair_scalar)
  next
    case False
    with 1 single_scalar [of c] show ?thesis by auto
  qed
next
  case (2 c)
  with single_scalar [of c] show ?case by simp
next
  case 3
  then show ?case by simp
qed

lemma pair_units:
  assumes "isHigh c" and "isLow d"
  shows "utf16_units (0x10000 + (c - 0xD800) * 1024 + (d - 0xDC00)) = [c, d]"
proof -
  define h where "h = c - 0xD800"
  define l where "l = d - 0xDC00"
  have c: "c = 0xD800 + h" and d: "d = 0xDC00 + l" and l: "l < 1024"
    using assms by (auto simp: h_def l_def isHigh_def isLow_def)
  have "(h * 1024 + l) div 1024 = h" "(h * 1024 + l) mod 1024 = l"
    using l by simp_all
  then show ?thesis
    by (simp add: utf16_units_def h_def [symmetric] l_def [symmetric] c d)
qed

lemma units_scalar_values:
  "wellFormed us \<Longrightarrow> \<forall>u\<in>set us. u < 65536 \<Longrightarrow>
     concat (map utf16_units (scalar_values us)) = us"
proof (induction us rule: scalar_values.induct)
  case (1 c d rest)
  show ?case
  proof (cases "isHigh c \<and> isLow d")
    case True
    with 1 show ?thesis by (simp add: pair_units)
  next
    case False
    with 1 show ?thesis by (auto simp: utf16_units_def)
  qed
next
  case (2 c)
  then show ?case by (simp add: utf16_units_def)
next
  case 3
  then show ?case by simp
qed

lemma mod64_lt128 [simp]: "(x::nat) mod 64 < 128"
  by (rule order_less_trans [OF mod_less_divisor]) simp_all

lemma utf8_bytes_lt: "cp < 0x110000 \<Longrightarrow> \<forall>b\<in>set (utf8_bytes cp). b < 256"
proof -
  assume a: "cp < 0x110000"
  have m: "cp mod 64 < 64" "cp div 64 mod 64 < 64" "cp div 4096 mod 64 < 64" by simp_all
  have 1: "cp < 0x800 \<Longrightarrow> cp div 64 < 32" by (rule less_mult_imp_div_less) simp
  have 2: "cp < 0x10000 \<Longrightarrow> cp div 4096 < 16" by (rule less_mult_imp_div_less) simp
  have 3: "cp div 262144 < 5" using a by (intro less_mult_imp_div_less) simp
  show ?thesis
  proof (cases "cp < 0x80")
    case True
    then show ?thesis by (simp add: utf8_bytes_def)
  next
    case False
    note c1 = this
    show ?thesis
    proof (cases "cp < 0x800")
      case True
      with c1 1 m show ?thesis by (simp add: utf8_bytes_def)
    next
      case False
      note c2 = this
      show ?thesis
      proof (cases "cp < 0x10000")
        case True
        with c1 c2 2 m show ?thesis by (simp add: utf8_bytes_def)
      next
        case False
        with c1 c2 3 m show ?thesis by (simp add: utf8_bytes_def)
      qed
    qed
  qed
qed

lemma strip_bom_scalar_values:
  "us = [] \<or> hd us \<noteq> 0xFEFF \<Longrightarrow> strip_bom (scalar_values us) = scalar_values us"
  by (cases us rule: scalar_values.cases)
     (auto simp: strip_bom_def isHigh_def isLow_def isSurrogate_def)

lemma unat_of_nat_byte: "n < 256 \<Longrightarrow> unat (of_nat n :: 8 word) = n"
  by (simp add: unat_of_nat)

lemma text_roundtrip:
  assumes "isWellFormed s" and "s = [] \<or> hd s \<noteq> 0xFEFF"
  shows "TextDecoder_decode (TextEncoder_encode s) = s"
proof -
  let ?us = "map unat s"
  let ?cps = "scalar_values ?us"
  have "unat w < 65536" for w :: "16 word"
    using unsigned_less [of w] by simp
  then have u: "\<forall>u\<in>set ?us. u < 65536"
    by auto
  have sc: "\<forall>cp\<in>set ?cps. is_scalar cp" using u by (rule scalar_values_scalar)
  then have "\<forall>b\<in>set (concat (map utf8_bytes ?cps)). b < 256"
    using utf8_bytes_lt by (auto simp: is_scalar_def)
  then have undo: "map (unat \<circ> (of_nat :: nat \<Rightarrow> 8 word)) (concat (map utf8_bytes ?cps))
                     = concat (map utf8_bytes ?cps)"
    by (auto intro!: map_idI simp: unat_of_nat_byte)
  have hd: "?us = [] \<or> hd ?us \<noteq> 0xFEFF"
  proof (cases s)
    case Nil
    then show ?thesis by simp
  next
    case (Cons c cs)
    with assms(2) have "c \<noteq> 0xFEFF" by simp
    have "unat c \<noteq> 0xFEFF"
    proof
      assume "unat c = 0xFEFF"
      then have "of_nat (unat c) = (of_nat 0xFEFF :: 16 word)" by (rule arg_cong)
      then have "c = 0xFEFF" by simp
      with \<open>c \<noteq> 0xFEFF\<close> show False by simp
    qed
    with Cons show ?thesis by simp
  qed
  have "TextDecoder_decode (TextEncoder_encode s)
          = map of_nat (concat (map utf16_units (strip_bom ?cps)))"
    by (simp add: TextDecoder_decode_def TextEncoder_encode_def undo decode_all [OF sc])
  also have "\<dots> = map of_nat ?us"
    using assms(1) u
    by (simp add: strip_bom_scalar_values [OF hd] units_scalar_values isWellFormed_def)
  also have "\<dots> = s" by (simp add: map_idI)
  finally show ?thesis .
qed



lemma base64_roundtrip [simp]: "base64ToBuffer (base64_text buffer) = Some buffer"
proof -
  have "(of_nat (of_char (char_of (unat b) :: char)) :: 8 word) = b" for b :: "8 word"
  proof -
    have "unat b < 256" using unsigned_less [of b] by simp
    then show ?thesis by simp
  qed
  then show ?thesis
    by (simp add: base64ToBuffer_def base64_text_def atob_btoa comp_def map_idI)
qed

text \<open>\<open>bufferToBase64\<close> returns the base64 text of a buffer that the engine accepts as
  the arguments of one call, and throws on every longer one.\<close>

lemma bufferToBase64_fits:
  "length buffer \<le> max_arguments W \<Longrightarrow> bufferToBase64 W buffer = Inr (base64_text buffer)"
  by (simp add: bufferToBase64_def fromCharCode_def base64_text_def)

lemma bufferToBase64_too_long:
  "max_arguments W < length buffer \<Longrightarrow> bufferToBase64 W buffer = Inl RangeError"
  by (simp add: bufferToBase64_def fromCharCode_def)

lemma bufferToBase64_InrD:
  "bufferToBase64 W buffer = Inr s \<Longrightarrow> length buffer \<le> max_arguments W \<and> s = base64_text buffer"
  by (simp add: bufferToBase64_def fromCharCode_def base64_text_def split: if_splits)

lemma getRandomValues_length: "getRandomValues n r = (bs, r') \<Longrightarrow> length bs = n"
  by (auto simp: getRandomValues_def)


subsection \<open>Sealing and opening\<close>

lemma generateAESKey_draw:
  "getRandomValues 32 r = (key, r1) \<Longrightarrow> generateAESKey W r = (Inr key, r1)"
  by (simp add: generateAESKey_def)

lemma generateRSAKeyPair_InrD:
  assumes "rsa_generate W r = ((pub, priv), r')" and "fst (generateRSAKeyPair W r) = Inr pair"
  shows "pair = \<lparr>kp_publicKey = base64_text (export_spki W pub), kp_privateKey = priv\<rparr>"
  using assms
  by (auto simp: generateRSAKeyPair_def split: sum.splits dest: bufferToBase64_InrD)

lemma encryptWithAES_draw:
  assumes "getRandomValues 12 r = (ivb, r')"
    and "length (aes_gcm_encrypt W key ivb (TextEncoder_encode text)) \<le> max_arguments W"
    and "12 \<le> max_arguments W"
  shows "encryptWithAES W text key r
       = (Inr \<lparr>ciphertext = base64_text (aes_gcm_encrypt W key ivb (TextEncoder_encode text)),
               aes_iv = base64_text ivb\<rparr>, r')"
proof -
  have "length ivb = 12" using assms(1) by (rule getRandomValues_length)
  then show ?thesis
    using assms by (simp add: encryptWithAES_def bufferToBase64_fits)
qed

lemma encryptWithAES_too_long:
  assumes "getRandomValues 12 r = (ivb, r')"
    and "max_arguments W < length (aes_gcm_encrypt W key ivb (TextEncoder_encode text))"
  shows "encryptWithAES W text key r = (Inl RangeError, r')"
  using assms by (simp add: encryptWithAES_def bufferToBase64_too_long)

lemma encryptKeyWithRSA_draw:
  assumes "getRandomValues 32 r = (seed, r')"
    and "import_spki W (export_spki W pub) = Some pub"
    and "rsa_oaep_encrypt W pub seed key = Some wrapped"
    and "length wrapped \<le> max_arguments W"
  shows "encryptKeyWithRSA W key (base64_text (export_spki W pub)) r
           = (Inr (base64_text wrapped), r')"
  using assms by (simp add: encryptKeyWithRSA_def bufferToBase64_fits)

lemma decryptKeyWithRSA_ok:
  assumes "rsa_oaep_decrypt W priv wrapped = Some key" and "length key = 32"
  shows "decryptKeyWithRSA W (base64_text wrapped) priv r = (Inr key, r)"
  using assms by (simp add: decryptKeyWithRSA_def)

lemma decryptWithAES_ok:
  assumes "aes_gcm_decrypt W key ivb buffer = Some d"
  shows "decryptWithAES W (base64_text buffer) key (base64_text ivb) r
           = (Inr (TextDecoder_decode d), r)"
  using assms by (simp add: decryptWithAES_def)

lemma sealEnvelope_draws:
  assumes "getRandomValues 32 r = (key, r1)" and "getRandomValues 12 r1 = (ivb, r2)"
    and "getRandomValues 32 r2 = (seed, r3)"
    and "publicKey recipient = base64_text (export_spki W pub)"
    and "import_spki W (export_spki W pub) = Some pub"
    and "rsa_oaep_encrypt W pub seed key = Some wrapped"
    and "length (aes_gcm_encrypt W key ivb (TextEncoder_encode text)) \<le> max_arguments W"
    and "12 \<le> max_arguments W" and "length wrapped \<le> max_arguments W"
  shows "sealEnvelope W text sender recipient ident now r
           = (Inr \<lparr>msg_id = ident, senderId = username sender,
                   recipientId = username recipient, isGroup = False,
                   encryptedContent =
                     base64_text (aes_gcm_encrypt W key ivb (TextEncoder_encode text)),
                   encryptedSessionKey = base64_text wrapped,
                   iv = base64_text ivb, hmac = ''GCM-SECURE'', timestamp = now\<rparr>, r3)"
  using assms(4)
  by (simp add: sealEnvelope_def generateAESKey_draw [OF assms(1)]
        encryptWithAES_draw [OF assms(2,7,8)] encryptKeyWithRSA_draw [OF assms(3,5,6,9)])

text \<open>A text whose ciphertext has more bytes than the engine accepts as arguments is not
  sealed: \<open>sendMessage\<close> ends in its \<open>catch\<close> with the \<open>RangeError\<close>.\<close>

lemma sealEnvelope_too_long:
  assumes "getRandomValues 32 r = (key, r1)" and "getRandomValues 12 r1 = (ivb, r2)"
    and "max_arguments W < length (aes_gcm_encrypt W key ivb (TextEncoder_encode text))"
  shows "sealEnvelope W text sender recipient ident now r = (Inl RangeError, r2)"
  by (simp add: sealEnvelope_def generateAESKey_draw [OF assms(1)]
        encryptWithAES_too_long [OF assms(2,3)])

lemma seal_then_open:
  assumes "getRandomValues 32 r = (key, r1)" and "getRandomValues 12 r1 = (ivb, r2)"
    and "getRandomValues 32 r2 = (seed, r3)"
    and "publicKey recipient = base64_text (export_spki W pub)"
    and "import_spki W (export_spki W pub) = Some pub"
    and "rsa_oaep_encrypt W pub seed key = Some wrapped"
    and "length (aes_gcm_encrypt W key ivb (TextEncoder_encode text)) \<le> max_arguments W"
    and "12 \<le> max_arguments W" and "length wrapped \<le> max_arguments W"
    and "rsa_oaep_decrypt W priv wrapped = Some key"
    and "aes_gcm_decrypt W key ivb (aes_gcm_encrypt W key ivb (TextEncoder_encode text))
           = Some (TextEncoder_encode text)"
  shows "sealThenOpen W text sender recipient ident now priv r
           = (Inr (TextDecoder_decode (TextEncoder_encode text)), r3)"
proof -
  have len: "length key = 32" using assms(1) by (rule getRandomValues_length)
  show ?thesis
    using assms(10,11)
    by (simp add: sealThenOpen_def sealEnvelope_draws [OF assms(1-9)] openEnvelope_def
          decryptKeyWithRSA_ok [OF _ len] decryptWithAES_ok)
qed

text \<open>
  Claim C1 (amended). For every plaintext that is well-formed UTF-16, does not begin
  with U+FEFF, and whose ciphertext has no more bytes than the engine accepts as the
  arguments of one call (as must the 12-byte IV and the wrapped session key), every key
  pair \<open>generateRSAKeyPair\<close> returns, every sender, and every recipient whose stored
  public key is that of the pair, whatever the random source holds: when the platform's
  primitives undo each other at the values drawn (importing the exported public key
  gives it back, RSA-OAEP under the private key decrypts what was encrypted under the
  public key, AES-GCM decrypts what it encrypted under the same key and IV), opening
  the sealed envelope with the private key of the pair returns exactly the plaintext.
\<close>

theorem seal_open_roundtrip:
  assumes "rsa_generate W r0 = ((pub, priv), r0')"
    and "fst (generateRSAKeyPair W r0) = Inr pair"
    and "publicKey recipient = kp_publicKey pair"
    and "getRandomValues 32 r = (key, r1)" and "getRandomValues 12 r1 = (ivb, r2)"
    and "getRandomValues 32 r2 = (seed, r3)"
    and "import_spki W (export_spki W pub) = Some pub"
    and "rsa_oaep_encrypt W pub seed key = Some wrapped"
    and "rsa_oaep_decrypt W priv wrapped = Some key"
    and "aes_gcm_decrypt W key ivb (aes_gcm_encrypt W key ivb (TextEncoder_encode text))
           = Some (TextEncoder_encode text)"
    and "isWellFormed text" and "text = [] \<or> hd text \<noteq> 0xFEFF"
    and "length (aes_gcm_encrypt W key ivb (TextEncoder_encode text)) \<le> max_arguments W"
    and "12 \<le> max_arguments W" and "length wrapped \<le> max_arguments W"
  shows "sealThenOpen W text sender recipient ident now (kp_privateKey pair) r = (Inr text, r3)"
proof -
  have pair: "pair = \<lparr>kp_publicKey = base64_text (export_spki W pub), kp_privateKey = priv\<rparr>"
    using assms(1,2) by (rule generateRSAKeyPair_InrD)
  have pk: "publicKey recipient = base64_text (export_spki W pub)"
    using assms(3) by (simp add: pair)
  from seal_then_open [OF assms(4-6) pk assms(7,8) assms(13-15) assms(9,10)]
    text_roundtrip [OF assms(11,12)]
  show ?thesis by (simp add: pair)
qed

lemma demo_aead: "aes_gcm_decrypt demo k v (aes_gcm_encrypt demo k v d) = Some d"
  by (simp add: demo_def Let_def)

lemma demo_facts:
  "import_spki demo (export_spki demo pub) = Some pub"
  "rsa_oaep_encrypt demo pub seed key = Some (pub # key)"
  "rsa_oaep_decrypt demo pub (pub # key) = Some key"
  "import_pkcs8 demo (export_pkcs8 demo priv) = Some priv"
  by (simp_all add: demo_def)

lemma demo_fits:
  "length d + length k + length v < 65536 \<Longrightarrow>
     length (aes_gcm_encrypt demo k v d) \<le> max_arguments demo"
  "12 \<le> max_arguments demo"
  "length bs \<le> 65536 \<Longrightarrow> length bs \<le> max_arguments demo"
  by (simp_all add: demo_def)

lemma draw: "getRandomValues n r = (map r [0..<n], \<lambda>i. r (i + n))"
  by (simp add: getRandomValues_def)

lemma encode_hi: "TextEncoder_encode text_hi = [0x68, 0x69]"
  by (simp add: text_hi_def TextEncoder_encode_def utf8_bytes_def isHigh_def isLow_def
        isSurrogate_def)

lemma encode_bom_hi: "TextEncoder_encode text_bom_hi = [0xEF, 0xBB, 0xBF, 0x68, 0x69]"
  by (simp add: text_bom_hi_def TextEncoder_encode_def utf8_bytes_def isHigh_def isLow_def
        isSurrogate_def)

lemma bom_dropped: "TextDecoder_decode (TextEncoder_encode text_bom_hi) = text_hi"
proof -
  have "TextDecoder_decode [0xEF, 0xBB, 0xBF, 0x68, 0x69] = text_hi"
    by (simp add: text_hi_def TextDecoder_decode_def utf8_decode.simps strip_bom_def
          utf16_units_def)
  then show ?thesis by (simp add: encode_bom_hi)
qed

text \<open>An unpaired surrogate does not come back either: the encoder replaces it.\<close>

lemma lone_surrogate_replaced: "TextDecoder_decode (TextEncoder_encode [0xD800]) = [0xFFFD]"
proof -
  have "TextEncoder_encode [0xD800] = [0xEF, 0xBF, 0xBD]"
    by (simp add: TextEncoder_encode_def utf8_bytes_def isHigh_def isLow_def isSurrogate_def)
  moreover have "TextDecoder_decode [0xEF, 0xBF, 0xBD] = [0xFFFD]"
    by (simp add: TextDecoder_decode_def utf8_decode.simps strip_bom_def utf16_units_def)
  ultimately show ?thesis by simp
qed

lemma demo_seal_fits:
  "length (aes_gcm_encrypt demo (map tape [0..<32]) (map (\<lambda>i. tape (i + 32)) [0..<12])
             (TextEncoder_encode text_hi)) \<le> max_arguments demo"
  "length (aes_gcm_encrypt demo (map tape [0..<32]) (map (\<lambda>i. tape (i + 32)) [0..<12])
             (TextEncoder_encode text_bom_hi)) \<le> max_arguments demo"
  "length ((7 :: 8 word) # map tape [0..<32]) \<le> max_arguments demo"
  by (simp_all add: demo_def encode_hi encode_bom_hi)

text \<open>
  Claim C1 (as stated, at the plaintext U+FEFF \<open>h\<close> \<open>i\<close>). The encoder writes the byte
  order mark as the bytes EF BB BF and the decoder drops them: what is opened is
  \<open>hi\<close>, not the plaintext that was sealed. The cipher plays no part in this; the
  stand-in platform only carries the bytes through.
\<close>

theorem bom_text_not_returned:
  "fst (sealThenOpen demo text_bom_hi alice demo_bob ''m1'' 0 7 tape) = Inr text_hi
   \<and> text_hi \<noteq> text_bom_hi"
proof -
  have pk: "publicKey demo_bob = base64_text (export_spki demo 7)"
    by (simp add: demo_bob_def demo_def)
  have "sealThenOpen demo text_bom_hi alice demo_bob ''m1'' 0 7 tape
          = (Inr (TextDecoder_decode (TextEncoder_encode text_bom_hi)),
             \<lambda>i. tape (i + 32 + 12 + 32))"
    by (rule seal_then_open [OF draw draw draw pk demo_facts(1) demo_facts(2)
          demo_seal_fits(2) demo_fits(2) demo_seal_fits(3) demo_facts(3) demo_aead])
  then show ?thesis by (simp add: bom_dropped) (simp add: text_hi_def text_bom_hi_def)
qed

theorem seal_open_roundtrip_witness:
  "fst (generateRSAKeyPair demo (\<lambda>i. 7))
     = Inr \<lparr>kp_publicKey = publicKey demo_bob, kp_privateKey = 7\<rparr>
   \<and> fst (sealThenOpen demo text_hi alice demo_bob ''m1'' 0 7 tape) = Inr text_hi"
proof -
  have gen: "rsa_generate demo (\<lambda>i. 7) = ((7, 7), \<lambda>i. 7)"
    by (simp add: demo_def)
  have "bufferToBase64 demo (export_spki demo 7) = Inr (base64_text [7])"
    by (simp add: bufferToBase64_fits demo_def)
  then have pair: "fst (generateRSAKeyPair demo (\<lambda>i. 7))
      = Inr \<lparr>kp_publicKey = publicKey demo_bob, kp_privateKey = 7\<rparr>"
    by (simp add: generateRSAKeyPair_def gen demo_bob_def)
  have pk: "publicKey demo_bob
      = kp_publicKey \<lparr>kp_publicKey = publicKey demo_bob, kp_privateKey = (7 :: 8 word)\<rparr>"
    by simp
  have wf: "isWellFormed text_hi" "text_hi = [] \<or> hd text_hi \<noteq> 0xFEFF"
    by (simp_all add: text_hi_def isWellFormed_def isHigh_def isLow_def isSurrogate_def)
  from seal_open_roundtrip [OF gen pair pk draw draw draw demo_facts(1) demo_facts(2)
          demo_facts(3) demo_aead wf demo_seal_fits(1) demo_fits(2) demo_seal_fits(3)]
  show ?thesis using pair by simp
qed

lemma onChat_hmac: "openEnvelope W priv (m\<lparr>hmac := h\<rparr>) r = openEnvelope W priv m r"
  by (simp add: openEnvelope_def split: prod.splits sum.splits)

lemma snd_decryptKeyWithRSA [simp]: "snd (decryptKeyWithRSA W s priv r) = r"
  by (simp add: decryptKeyWithRSA_def split: option.splits)

lemma snd_decryptWithAES [simp]: "snd (decryptWithAES W c key v r) = r"
  by (simp add: decryptWithAES_def split: option.splits)

lemma openEnvelope_unwrapped:
  assumes "fst (decryptKeyWithRSA W (encryptedSessionKey m) priv r) = Inr key"
  shows "openEnvelope W priv m r = decryptWithAES W (encryptedContent m) key (iv m) r"
proof -
  have "decryptKeyWithRSA W (encryptedSessionKey m) priv r = (Inr key, r)"
    using assms by (metis prod.collapse snd_decryptKeyWithRSA)
  then show ?thesis by (simp add: openEnvelope_def)
qed

lemma openEnvelope_same_bytes:
  assumes "base64ToBuffer c' = base64ToBuffer (encryptedContent m)"
  shows "openEnvelope W priv (m\<lparr>encryptedContent := c'\<rparr>) r = openEnvelope W priv m r"
  using assms
  by (simp add: openEnvelope_def decryptWithAES_def split: prod.splits sum.splits option.splits)

lemma openEnvelope_rejected:
  assumes "fst (decryptKeyWithRSA W (encryptedSessionKey m) priv r) = Inr key"
    and "base64ToBuffer (iv m) = Some ivb"
    and "base64ToBuffer c' = None
         \<or> (\<exists>buf. base64ToBuffer c' = Some buf \<and> aes_gcm_decrypt W key ivb buf = None)"
  shows "\<exists>e. openEnvelope W priv (m\<lparr>encryptedContent := c'\<rparr>) r = (Inl e, r)"
proof -
  have "fst (decryptKeyWithRSA W (encryptedSessionKey (m\<lparr>encryptedContent := c'\<rparr>)) priv r)
          = Inr key"
    using assms(1) by simp
  from openEnvelope_unwrapped [OF this] assms(2,3) show ?thesis
    by (auto simp: decryptWithAES_def)
qed

lemma openEnvelope_authenticated:
  assumes "fst (openEnvelope W priv m r) = Inr p"
  shows "\<exists>key ivb buf d.
           fst (decryptKeyWithRSA W (encryptedSessionKey m) priv r) = Inr key
           \<and> base64ToBuffer (iv m) = Some ivb
           \<and> base64ToBuffer (encryptedContent m) = Some buf
           \<and> aes_gcm_decrypt W key ivb buf = Some d \<and> p = TextDecoder_decode d"
  using assms
  by (auto simp: openEnvelope_def decryptWithAES_def split: prod.splits sum.splits option.splits)

text \<open>
  Claim C2 (amended). The handler never reads the \<open>hmac\<close> field, so altering it changes
  nothing, and an altered \<open>encryptedContent\<close> that decodes to the same bytes changes
  nothing either. When the session key unwraps, an altered \<open>encryptedContent\<close> that is
  not valid base64, or that decodes to bytes AES-GCM rejects under that key and the
  envelope's IV, ends in the integrity-violation branch. And whenever the handler does
  deliver a plaintext, it is the decoding of data that AES-GCM authenticated under the
  unwrapped session key: never anything else.
\<close>

theorem tampering_detected:
  "onChat W priv (m\<lparr>hmac := h\<rparr>) r = onChat W priv m r
   \<and> (base64ToBuffer c' = base64ToBuffer (encryptedContent m) \<longrightarrow>
        onChat W priv (m\<lparr>encryptedContent := c'\<rparr>) r = onChat W priv m r)
   \<and> (fst (decryptKeyWithRSA W (encryptedSessionKey m) priv r) = Inr key
        \<and> base64ToBuffer (iv m) = Some ivb
        \<and> (base64ToBuffer c' = None
             \<or> (\<exists>buf. base64ToBuffer c' = Some buf \<and> aes_gcm_decrypt W key ivb buf = None)) \<longrightarrow>
        onChat W priv (m\<lparr>encryptedContent := c'\<rparr>) r = IntegrityViolation)
   \<and> (onChat W priv m r = Decrypted p \<longrightarrow>
        (\<exists>key ivb buf d.
           fst (decryptKeyWithRSA W (encryptedSessionKey m) priv r) = Inr key
           \<and> base64ToBuffer (iv m) = Some ivb
           \<and> base64ToBuffer (encryptedContent m) = Some buf
           \<and> aes_gcm_decrypt W key ivb buf = Some d \<and> p = TextDecoder_decode d))"
proof -
  have 1: "onChat W priv (m\<lparr>hmac := h\<rparr>) r = onChat W priv m r"
    by (simp add: onChat_def onChat_hmac)
  have 2: "onChat W priv (m\<lparr>encryptedContent := c'\<rparr>) r = onChat W priv m r"
    if "base64ToBuffer c' = base64ToBuffer (encryptedContent m)"
    using that by (simp add: onChat_def openEnvelope_same_bytes)
  have 3: "onChat W priv (m\<lparr>encryptedContent := c'\<rparr>) r = IntegrityViolation"
    if "fst (decryptKeyWithRSA W (encryptedSessionKey m) priv r) = Inr key"
      "base64ToBuffer (iv m) = Some ivb"
      "base64ToBuffer c' = None
         \<or> (\<exists>buf. base64ToBuffer c' = Some buf \<and> aes_gcm_decrypt W key ivb buf = None)"
    using openEnvelope_rejected [OF that] by (auto simp: onChat_def)
  have 4: "\<exists>key ivb buf d.
           fst (decryptKeyWithRSA W (encryptedSessionKey m) priv r) = Inr key
           \<and> base64ToBuffer (iv m) = Some ivb
           \<and> base64ToBuffer (encryptedContent m) = Some buf
           \<and> aes_gcm_decrypt W key ivb buf = Some d \<and> p = TextDecoder_decode d"
    if "onChat W priv m r = Decrypted p"
  proof -
    from that have "fst (openEnvelope W priv m r) = Inr p"
      by (simp add: onChat_def split: sum.splits)
    then show ?thesis by (rule openEnvelope_authenticated)
  qed
  show ?thesis using 1 2 3 4 by blast
qed


lemma tape_draws:
  "getRandomValues 32 tape = (map tape [0..<32], \<lambda>i. tape (i + 32))"
  "getRandomValues 12 (\<lambda>i. tape (i + 32)) = (map tape [32..<44], \<lambda>i. tape (i + 12 + 32))"
proof -
  show "getRandomValues 32 tape = (map tape [0..<32], \<lambda>i. tape (i + 32))"
    by (rule draw)
  have "map (\<lambda>i. tape (i + 32)) [0..<12] = map tape (map (\<lambda>i. i + 32) [0..<12])"
    by (simp add: comp_def)
  also have "\<dots> = map tape [32..<44]"
    by (simp only: map_add_upt) simp
  finally show "getRandomValues 12 (\<lambda>i. tape (i + 32))
      = (map tape [32..<44], \<lambda>i. tape (i + 12 + 32))"
    by (simp add: getRandomValues_def)
qed

lemma seal_hi: "fst (sealEnvelope demo text_hi alice demo_bob ''m1'' 0 tape) = Inr sealed_hi"
proof -
  have pk: "publicKey demo_bob = base64_text (export_spki demo 7)"
    by (simp add: demo_bob_def demo_def)
  have fits: "length (aes_gcm_encrypt demo (map tape [0..<32]) (map tape [32..<44])
                 (TextEncoder_encode text_hi)) \<le> max_arguments demo"
    by (simp add: demo_fits encode_hi)
  from sealEnvelope_draws [OF tape_draws draw pk demo_facts(1) demo_facts(2) fits
         demo_fits(2) demo_seal_fits(3), of alice "''m1''" 0]
  show ?thesis by (simp add: sealed_hi_def alice_def demo_bob_def)
qed

lemma open_hi: "fst (openEnvelope demo 7 sealed_hi r) = Inr text_hi"
proof -
  have len: "length (map tape [0..<32]) = 32" by simp
  have "TextDecoder_decode (TextEncoder_encode text_hi) = text_hi"
    by (rule text_roundtrip)
       (simp_all add: text_hi_def isWellFormed_def isHigh_def isLow_def isSurrogate_def)
  then show ?thesis
    by (simp add: openEnvelope_def sealed_hi_def
          decryptKeyWithRSA_ok [OF demo_facts(3) len] decryptWithAES_ok [OF demo_aead])
qed

text \<open>
  Claim C2 (as stated, at the envelope sealed for \<open>hi\<close> with the last character of its
  \<open>hmac\<close> field altered). The handler decrypts the envelope and delivers the plaintext:
  no decryption error.
\<close>

theorem altered_hmac_accepted:
  "fst (sealEnvelope demo text_hi alice demo_bob ''m1'' 0 tape) = Inr sealed_hi
   \<and> hmac sealed_hi = ''GCM-SECURE''
   \<and> onChat demo 7 (sealed_hi\<lparr>hmac := ''GCM-SECURF''\<rparr>) tape = Decrypted text_hi"
proof -
  have "onChat demo 7 (sealed_hi\<lparr>hmac := ''GCM-SECURF''\<rparr>) tape = onChat demo 7 sealed_hi tape"
    by (simp add: onChat_def onChat_hmac)
  then show ?thesis
    using seal_hi open_hi [of tape] by (simp add: onChat_def) (simp add: sealed_hi_def)
qed

theorem tampering_detected_witness:
  "onChat demo 7 (sealed_hi\<lparr>hmac := ''GCM-SECURF''\<rparr>) tape = Decrypted text_hi
   \<and> onChat demo 7
        (sealed_hi\<lparr>encryptedContent :=
           base64_text ([0x69, 0x69] @ map tape [0..<32] @ map tape [32..<44] @ [0xD1])\<rparr>) tape
       = IntegrityViolation"
proof -
  let ?key = "map tape [0..<32]"
  let ?iv = "map tape [32..<44]"
  let ?c = "base64_text ([0x69, 0x69] @ ?key @ ?iv @ [0xD1])"
  have len: "length ?key = 32" by simp
  have k: "fst (decryptKeyWithRSA demo (encryptedSessionKey sealed_hi) 7 tape) = Inr ?key"
    by (simp add: sealed_hi_def decryptKeyWithRSA_ok [OF demo_facts(3) len])
  have v: "base64ToBuffer (iv sealed_hi) = Some ?iv"
    by (simp add: sealed_hi_def)
  have rej: "aes_gcm_decrypt demo ?key ?iv ([0x69, 0x69] @ ?key @ ?iv @ [0xD1]) = None"
    by (simp add: demo_def Let_def)
  have alt: "base64ToBuffer ?c = None
      \<or> (\<exists>buf. base64ToBuffer ?c = Some buf \<and> aes_gcm_decrypt demo ?key ?iv buf = None)"
    using rej by simp
  have ok: "onChat demo 7 sealed_hi tape = Decrypted text_hi"
    using open_hi [of tape] by (simp add: onChat_def)
  from tampering_detected [where W = demo and priv = 7 and m = sealed_hi
         and h = "''GCM-SECURF''" and r = tape and c' = ?c and key = ?key and ivb = ?iv]
    k v alt ok
  show ?thesis by simp
qed


subsection \<open>The private key at rest\<close>


lemma protect_too_long:
  assumes "getRandomValues 12 r = (ivb, r1)"
    and "max_arguments W < length (aes_gcm_encrypt W m ivb (export_pkcs8 W k))"
  shows "protectPrivateKey W k m r = (Inl RangeError, r1)"
  using assms by (simp add: protectPrivateKey_def bufferToBase64_too_long)












end
